theory Spec2Isabelle
  imports
    Main
    "HOL-Library.Word"
    "HOL-Library.Signed_Division"
    "HOL-Library.Sublist"
    "HOL-Library.Multiset"
begin

section \<open>JavaScript values\<close>

text \<open>
  A JavaScript string is a sequence of UTF-16 code units. String literals of the source
  are written \<open>js ''...''\<close>; code units outside ASCII are written as numerals.
\<close>

type_synonym jsstring = "16 word list"

definition js :: "string \<Rightarrow> jsstring" where
  "js s = map of_char s"

text \<open>
  \<open>String.prototype.trim\<close> removes WhiteSpace and LineTerminator code units from both
  ends; \<open>slice(0, 20)\<close> keeps the first twenty code units; \<open>a.includes(b)\<close> tests for
  a contiguous occurrence of \<open>b\<close> in \<open>a\<close>.
\<close>

definition isWhiteSpace :: "16 word \<Rightarrow> bool" where
  "isWhiteSpace c = (c \<in> set [0x9, 0xA, 0xB, 0xC, 0xD, 0x20, 0xA0, 0x1680,
      0x2000, 0x2001, 0x2002, 0x2003, 0x2004, 0x2005, 0x2006, 0x2007, 0x2008, 0x2009, 0x200A,
      0x2028, 0x2029, 0x202F, 0x205F, 0x3000, 0xFEFF])"

definition trim :: "jsstring \<Rightarrow> jsstring" where
  "trim s = rev (dropWhile isWhiteSpace (rev (dropWhile isWhiteSpace s)))"

definition includes_str :: "jsstring \<Rightarrow> jsstring \<Rightarrow> bool" where
  "includes_str a b = sublist b a"

text \<open>
  The numbers of the program are array indices and array lengths, and the results of
  \<open>+\<close>, \<open>-\<close>, \<open>%\<close> and \<open>Math.max\<close> on them: integers, or \<open>NaN\<close> where \<open>%\<close> divides by
  zero. \<open>%\<close> takes the sign of the dividend (\<open>smod\<close>). Reading an array at an index that
  is not one of its positions gives \<open>undefined\<close> (\<open>None\<close>).
\<close>

datatype jsnum = Num int | NaN

fun jsAdd :: "jsnum \<Rightarrow> jsnum \<Rightarrow> jsnum" where
  "jsAdd (Num a) (Num b) = Num (a + b)"
| "jsAdd _ _ = NaN"

fun jsSub :: "jsnum \<Rightarrow> jsnum \<Rightarrow> jsnum" where
  "jsSub (Num a) (Num b) = Num (a - b)"
| "jsSub _ _ = NaN"

fun jsRem :: "jsnum \<Rightarrow> jsnum \<Rightarrow> jsnum" where
  "jsRem (Num a) (Num b) = (if b = 0 then NaN else Num (a smod b))"
| "jsRem _ _ = NaN"

fun jsMax :: "jsnum \<Rightarrow> jsnum \<Rightarrow> jsnum" where
  "jsMax (Num a) (Num b) = Num (max a b)"
| "jsMax _ _ = NaN"

fun jsIndex :: "'a list \<Rightarrow> jsnum \<Rightarrow> 'a option" where
  "jsIndex xs (Num i) = (if 0 \<le> i \<and> i < int (length xs) then Some (xs ! nat i) else None)"
| "jsIndex xs NaN = None"

definition jsLength :: "'a list \<Rightarrow> jsnum" where
  "jsLength xs = Num (int (length xs))"

text \<open>\<open>Array.prototype.indexOf\<close>: the first position of the element, or \<open>-1\<close>.\<close>

fun indexOf :: "'a list \<Rightarrow> 'a \<Rightarrow> int" where
  "indexOf [] x = - 1"
| "indexOf (y # ys) x =
     (if y = x then 0 else (let i = indexOf ys x in if i = - 1 then - 1 else i + 1))"

text \<open>
  \<open>const n = xs.find(p); if (n) n.field = v\<close> assigns to a field of the first element that
  satisfies \<open>p\<close>; the array holds that object, so the array changes at that position.
\<close>

fun updateFirst :: "('a \<Rightarrow> bool) \<Rightarrow> ('a \<Rightarrow> 'a) \<Rightarrow> 'a list \<Rightarrow> 'a list" where
  "updateFirst p f [] = []"
| "updateFirst p f (x # xs) = (if p x then f x # xs else x # updateFirst p f xs)"

datatype error = TypeError | SyntaxError


section \<open>Data model\<close>

text \<open>
  \<open>type Note = { id; content; updatedAt; workspace? }\<close> (lines 60-65). \<open>updatedAt\<close> is written by
  \<open>new Date().toISOString()\<close> and read by \<open>new Date(s).getTime()\<close>; the model keeps the
  number of milliseconds that the string denotes. An absent \<open>workspace\<close> is \<open>None\<close>.
\<close>

record Note =
  note_id :: jsstring
  content :: jsstring
  updatedAt :: int
  workspace :: "jsstring option"

text \<open>
  The closure \<open>onAction\<close> of an action suggestion is represented by its kind and the
  values it captures from the render that built it: the trimmed query, or the best
  workspace match.
\<close>

datatype onAction =
    CreateNewNote jsstring
  | MoveNote jsstring
  | CreateWorkspace jsstring
  | RenameWorkspace jsstring
  | UnlinkNote

text \<open>
  \<open>type CmdKSuggestion\<close> (lines 67-79). An action suggestion carries \<open>title\<close>,
  \<open>content\<close>, \<open>color\<close> and \<open>onAction\<close>.
\<close>

datatype CmdKSuggestion =
    NoteSuggestion Note
  | ActionSuggestion jsstring jsstring jsstring onAction

text \<open>
  The React state of \<open>App\<close> that the palette reads and writes. \<open>currentWorkspace\<close> is
  \<open>string | null\<close>, with \<open>None\<close> for \<open>null\<close>.

  The cell \<open>database\<close> holds an array object. \<open>database\<close> is the sequence of its elements
  and \<open>databaseKey\<close> names the object: a handler that passes a new array to \<open>setDatabase\<close>
  takes the next key, and a handler that writes into the array or into one of its notes
  and passes the same array keeps the key. React compares the old and the new value of a
  cell with \<open>Object.is\<close>, and \<open>useMemo\<close> compares its dependencies the same way: for
  \<open>database\<close> both compare the key, not the elements.
\<close>

record app_state =
  database :: "Note list"
  databaseKey :: nat
  currentWorkspace :: "jsstring option"
  currentNoteId :: jsstring
  textValue :: jsstring
  lastAceCursorPosition :: "nat \<times> nat"
  selectedCmdKSuggestionIndex :: jsnum
  cmdKSearchQuery :: jsstring
  isCmdKMenuOpen :: bool
  hasVimNavigated :: bool
  isHelpMenuOpen :: bool
  freshlyDeletedNotes :: "Note list"

text \<open>
  What a handler takes from outside the program: the two Fuse searches
  (\<open>new Fuse(list, options).search(query).map(result => result.item)\<close>, over the notes
  with key \<open>content\<close> and threshold 0.3, over the workspace names with threshold 0.05),
  the identifier that \<open>getRandomId()\<close> returns and the time that \<open>new Date()\<close> reads.
\<close>

record env =
  notesFuse :: "Note list \<Rightarrow> jsstring \<Rightarrow> Note list"
  workspaceFuse :: "jsstring list \<Rightarrow> jsstring \<Rightarrow> jsstring list"
  getRandomId :: jsstring
  dateNow :: int

record KeyboardEvent =
  key :: string
  ctrlKey :: bool
  metaKey :: bool
  shiftKey :: bool



section \<open>Derived values\<close>

text \<open>
  \<open>workspaceNotes\<close>, \<open>availableWorkspaces\<close>, \<open>navigableWorkspaces\<close> and \<open>cmdKSuggestions\<close> are
  values of \<open>useMemo\<close>. This section gives the callback of each one, as a function of
  what the callback reads. The value that the App holds is the result of the last run
  of the callback, and the callback runs again only in a render in which one of its
  dependencies has a new value; that is the section on rendering.

  \<open>sortNotes\<close> (lines 153-157): \<open>Array.prototype.sort\<close> with the comparator
  \<open>getTime(b.updatedAt) - getTime(a.updatedAt)\<close>, a stable sort by descending time. It
  sorts its argument in place and returns it.
\<close>

definition sortNotes :: "Note list \<Rightarrow> Note list" where
  "sortNotes notes = sort_key (\<lambda>n. - updatedAt n) notes"

text \<open>
  The callback of \<open>workspaceNotes\<close> (lines 187-191), on the state it reads. \<open>strictEq\<close> is
  \<open>a === b\<close> for a note's \<open>workspace\<close> (string or undefined) and a filter (string or
  null). With no filter the callback returns the array \<open>database\<close> itself.
\<close>

fun strictEq :: "jsstring option \<Rightarrow> jsstring option \<Rightarrow> bool" where
  "strictEq (Some a) (Some b) = (a = b)"
| "strictEq _ _ = False"

definition workspaceNotes :: "app_state \<Rightarrow> Note list" where
  "workspaceNotes st =
     (case currentWorkspace st of
        None \<Rightarrow> database st
      | Some w \<Rightarrow> filter (\<lambda>n. strictEq (workspace n) (Some w)) (database st))"

text \<open>
  The callback of \<open>availableWorkspaces\<close> (lines 193-208), on the elements of \<open>database\<close>:
  \<open>collectWorkspaces\<close> is its loop, \<open>allWorkspaces\<close> the accumulator, and \<open>seenWorkspaces\<close>
  always holds the elements of the accumulator. The callback of \<open>navigableWorkspaces\<close>
  (lines 210-212) puts \<open>null\<close> in front of the list it is given.
\<close>

fun collectWorkspaces :: "Note list \<Rightarrow> jsstring list \<Rightarrow> jsstring list" where
  "collectWorkspaces [] allWorkspaces = allWorkspaces"
| "collectWorkspaces (n # ns) allWorkspaces =
     (case workspace n of
        None \<Rightarrow> collectWorkspaces ns allWorkspaces
      | Some w \<Rightarrow>
          if w = [] \<or> w \<in> set allWorkspaces then collectWorkspaces ns allWorkspaces
          else collectWorkspaces ns (allWorkspaces @ [w]))"

definition computeAvailableWorkspaces :: "Note list \<Rightarrow> jsstring list" where
  "computeAvailableWorkspaces notes = collectWorkspaces (sortNotes notes) []"

definition navigableWorkspaces :: "jsstring list \<Rightarrow> jsstring option list" where
  "navigableWorkspaces availableWorkspaces = None # map Some availableWorkspaces"

definition currentNoteOf :: "app_state \<Rightarrow> Note option" where
  "currentNoteOf st = find (\<lambda>n. note_id n = currentNoteId st) (database st)"

definition trimmedCmdKQuery :: "app_state \<Rightarrow> jsstring" where
  "trimmedCmdKQuery st = take 20 (trim (cmdKSearchQuery st))"

definition unlinkTitle :: jsstring where
  "unlinkTitle = js ''unlink note''"

text \<open>The five action suggestions, as the source spells them.\<close>

definition createNewNoteSuggestion :: "jsstring \<Rightarrow> CmdKSuggestion" where
  "createNewNoteSuggestion q =
     ActionSuggestion (js ''create new note'') ([0x22] @ q @ [0x22]) (js ''green'')
       (CreateNewNote q)"

definition moveNoteSuggestion :: "jsstring \<Rightarrow> CmdKSuggestion" where
  "moveNoteSuggestion w =
     ActionSuggestion (js ''move note to '' @ w) ([0x2192] @ js ''['' @ w @ js '']'')
       (js ''cyan'') (MoveNote w)"

definition createWorkspaceSuggestion :: "jsstring \<Rightarrow> CmdKSuggestion" where
  "createWorkspaceSuggestion q =
     ActionSuggestion (js ''create workspace'') (js ''+['' @ q @ js '']'') (js ''red'')
       (CreateWorkspace q)"

definition renameWorkspaceSuggestion :: "jsstring \<Rightarrow> CmdKSuggestion" where
  "renameWorkspaceSuggestion q =
     ActionSuggestion (js ''rename workspace'') ([0xB1] @ js ''['' @ q @ js '']'')
       (js ''gray'') (RenameWorkspace q)"

definition unlinkSuggestion :: "jsstring \<Rightarrow> CmdKSuggestion" where
  "unlinkSuggestion w =
     ActionSuggestion unlinkTitle (js ''-['' @ w @ js '']'') (js ''purple'') UnlinkNote"

text \<open>
  The callback of \<open>cmdKSuggestions\<close> (lines 334-467). It reads two memoised values, taken
  here as arguments: \<open>wn\<close>, the elements of the array \<open>workspaceNotes\<close>, and \<open>aw\<close>, the list
  \<open>availableWorkspaces\<close>. The rest it reads from the state: the query, \<open>database\<close> and
  \<open>currentNoteId\<close>. A string is truthy when it is not empty; \<open>find\<close> on
  \<open>availableWorkspaces\<close> returns the workspace found, or undefined.
\<close>

definition cmdKActions :: "env \<Rightarrow> jsstring list \<Rightarrow> app_state \<Rightarrow> CmdKSuggestion list" where
  "cmdKActions ev aw st =
     (let workspaces = (if cmdKSearchQuery st \<noteq> []
                        then workspaceFuse ev aw (cmdKSearchQuery st)
                        else []);
          q = trimmedCmdKQuery st
      in (if q \<noteq> []
          then [createNewNoteSuggestion q]
             @ (case workspaces of [] \<Rightarrow> [] | w # _ \<Rightarrow> [moveNoteSuggestion w])
             @ (case find (\<lambda>w. w = q) aw of
                  Some w \<Rightarrow> if w \<noteq> [] then [] else [createWorkspaceSuggestion q]
                | None \<Rightarrow> [createWorkspaceSuggestion q])
             @ [renameWorkspaceSuggestion q]
          else [])
       @ (case currentNoteOf st of
            None \<Rightarrow> []
          | Some currentNote \<Rightarrow>
             (case workspace currentNote of
                None \<Rightarrow> []
              | Some w \<Rightarrow>
                  if w \<noteq> [] \<and> (q = [] \<or> includes_str unlinkTitle q)
                  then [unlinkSuggestion w] else [])))"

definition cmdKNotes :: "env \<Rightarrow> Note list \<Rightarrow> app_state \<Rightarrow> Note list" where
  "cmdKNotes ev wn st =
     (if cmdKSearchQuery st \<noteq> []
      then notesFuse ev wn (cmdKSearchQuery st)
      else wn)"

definition cmdKSuggestions ::
    "env \<Rightarrow> Note list \<Rightarrow> jsstring list \<Rightarrow> app_state \<Rightarrow> CmdKSuggestion list" where
  "cmdKSuggestions ev wn aw st =
     map NoteSuggestion (sortNotes (cmdKNotes ev wn st)) @ cmdKActions ev aw st"


section \<open>Note store operations\<close>

text \<open>
  \<open>openNote\<close> (lines 252-277): returns at once for an empty (falsy) id and for an id that is not in the
  store; otherwise resets the cursor, activates the note and stamps the note found with
  the current time. The stamp is written into the note, and \<open>setDatabase(database)\<close> is
  given the array it already holds.
\<close>

definition openNote :: "jsstring \<Rightarrow> int \<Rightarrow> app_state \<Rightarrow> app_state" where
  "openNote nid t st =
     (if nid = [] \<or> find (\<lambda>n. note_id n = nid) (database st) = None then st
      else st\<lparr>lastAceCursorPosition := (0, 0),
              currentNoteId := nid,
              database := updateFirst (\<lambda>n. note_id n = nid) (\<lambda>n. n\<lparr>updatedAt := t\<rparr>)
                            (database st)\<rparr>)"

text \<open>
  \<open>openNewNote\<close> (lines 279-296): stores a new array with the new note appended and activates the
  note, then calls \<open>openNote\<close>, whose
  \<open>database\<close> is still the array of the current render. So \<open>openNote\<close> returns at once
  unless the fresh id is already in use; in that case its \<open>setDatabase(database)\<close> is the
  last write and stores the old array.
\<close>

definition openNewNote ::
    "jsstring \<Rightarrow> jsstring \<Rightarrow> jsstring \<Rightarrow> int \<Rightarrow> app_state \<Rightarrow> app_state" where
  "openNewNote defaultContent defaultWorkspace newId t st =
     (let newNote = \<lparr>note_id = newId, content = defaultContent, updatedAt = t,
                     workspace = (if defaultWorkspace \<noteq> [] then Some defaultWorkspace
                                  else currentWorkspace st)\<rparr>;
          st1 = st\<lparr>database := database st @ [newNote], databaseKey := Suc (databaseKey st),
                   currentNoteId := newId, textValue := []\<rparr>
      in if newId = [] \<or> find (\<lambda>n. note_id n = newId) (database st) = None then st1
         else st1\<lparr>lastAceCursorPosition := (0, 0),
                  database := updateFirst (\<lambda>n. note_id n = newId) (\<lambda>n. n\<lparr>updatedAt := t\<rparr>)
                                (database st),
                  databaseKey := databaseKey st\<rparr>)"

text \<open>
  \<open>deleteNote\<close> (lines 240-250); \<open>database.filter\<close> returns a new array, and
  \<open>updatedDatabase[0]?.id || ''\<close> is the first remaining id, or empty.
\<close>

definition deleteNote :: "jsstring \<Rightarrow> app_state \<Rightarrow> app_state" where
  "deleteNote nid st =
     (case find (\<lambda>n. note_id n = nid) (database st) of
        None \<Rightarrow> st
      | Some deletedNote \<Rightarrow>
          (let updatedDatabase = filter (\<lambda>n. note_id n \<noteq> nid) (database st);
               st1 = st\<lparr>freshlyDeletedNotes := freshlyDeletedNotes st @ [deletedNote],
                        database := updatedDatabase, databaseKey := Suc (databaseKey st)\<rparr>
           in if currentNoteId st = nid
              then st1\<lparr>currentNoteId := (case updatedDatabase of [] \<Rightarrow> [] | n # _ \<Rightarrow> note_id n),
                       textValue := (case updatedDatabase of [] \<Rightarrow> [] | n # _ \<Rightarrow> content n)\<rparr>
              else st1))"


section \<open>Rendering\<close>

text \<open>
  What a render leaves behind: the values that its \<open>useMemo\<close> hooks returned, with the
  dependencies of \<open>workspaceNotes\<close> and \<open>availableWorkspaces\<close> that the next render compares
  (the \<open>database\<close> array and the filter). The handlers are closures of the render,
  registered again after every render (the effect of lines 542-753 depends on functions
  that each render creates), so a handler reads these values and the state cells of
  the latest render.

  The arrays hold note objects, which they share with \<open>database\<close>; here they hold the
  notes as the render read them. A handler reads from them only lengths and the ids of
  notes, and no code writes to the \<open>id\<close> of an existing note.
\<close>

record memos =
  memoKey :: nat
  memoFilter :: "jsstring option"
  memoWorkspaceNotes :: "Note list"
  memoAvailableWorkspaces :: "jsstring list"
  memoCmdKSuggestions :: "CmdKSuggestion list"

text \<open>
  A render that keeps the array \<open>workspaceNotes\<close> reads its notes again, and finds what
  \<open>openNote\<close>, move or unlink has written into them since. While the array is kept its
  notes are notes of the same \<open>database\<close> array; the model finds each of them there by its
  id, the ids of a store being unique.
\<close>

definition notesNow :: "Note list \<Rightarrow> Note list \<Rightarrow> Note list" where
  "notesNow db notes =
     map (\<lambda>n. case find (\<lambda>x. note_id x = note_id n) db of None \<Rightarrow> n | Some x \<Rightarrow> x) notes"

text \<open>
  The two hooks \<open>useMemo(..., [database, currentWorkspace])\<close> and \<open>useMemo(..., [database])\<close>
  in a render of the state \<open>st\<close> that follows the render \<open>prev\<close> (\<open>None\<close> for the first
  render, which runs every callback). With no filter the value kept is the array
  \<open>database\<close> itself, whose elements are those of the state.
\<close>

definition useWorkspaceNotes :: "memos option \<Rightarrow> app_state \<Rightarrow> Note list" where
  "useWorkspaceNotes prev st =
     (case prev of
        None \<Rightarrow> workspaceNotes st
      | Some m \<Rightarrow>
          if memoKey m = databaseKey st \<and> memoFilter m = currentWorkspace st
          then (case currentWorkspace st of
                  None \<Rightarrow> database st
                | Some w \<Rightarrow> notesNow (database st) (memoWorkspaceNotes m))
          else workspaceNotes st)"

definition useAvailableWorkspaces :: "memos option \<Rightarrow> app_state \<Rightarrow> jsstring list" where
  "useAvailableWorkspaces prev st =
     (case prev of
        None \<Rightarrow> computeAvailableWorkspaces (database st)
      | Some m \<Rightarrow>
          if memoKey m = databaseKey st then memoAvailableWorkspaces m
          else computeAvailableWorkspaces (database st))"

text \<open>
  A render in which \<open>workspaceNotes\<close> is computed anew, followed by the effect that keeps
  the active note inside the workspace filter
  (lines 214-224).
  During the render, \<open>cmdKSuggestions\<close> calls \<open>sortNotes(notes)\<close>, which sorts in place:
  with an empty query \<open>notes\<close> is the array \<open>workspaceNotes\<close> itself, and with no filter
  that array is \<open>database\<close>. The effect then reads \<open>workspaceNotes\<close>;
  \<open>workspaceNotes[0].id\<close> on an empty array throws.
\<close>

definition renderedWorkspaceNotes :: "app_state \<Rightarrow> Note list" where
  "renderedWorkspaceNotes st =
     (if cmdKSearchQuery st = [] then sortNotes (workspaceNotes st) else workspaceNotes st)"

definition currentNoteEffect :: "app_state \<Rightarrow> error + app_state" where
  "currentNoteEffect st =
     (let notes = renderedWorkspaceNotes st;
          st1 = (if cmdKSearchQuery st = [] \<and> currentWorkspace st = None
                 then st\<lparr>database := notes\<rparr> else st)
      in case find (\<lambda>n. note_id n = currentNoteId st) notes of
           Some currentNote \<Rightarrow> Inr (st1\<lparr>textValue := content currentNote\<rparr>)
         | None \<Rightarrow>
            (case notes of
               [] \<Rightarrow> Inl TypeError
             | n # _ \<Rightarrow> Inr (st1\<lparr>currentNoteId := note_id n, textValue := content n\<rparr>)))"

text \<open>
  The render of the state \<open>st\<close> after the render \<open>prev\<close>, in general: the two hooks above,
  the in-place sort, the effect, and the values that the handlers then hold. The
  callback of \<open>cmdKSuggestions\<close> runs in every render, because its dependencies include
  functions that each render creates. When the effect sets the state the App renders
  once more; that render keeps both arrays, so \<open>settled\<close> builds the suggestion list from
  the state that the effect leaves. When the effect throws, the exception is the
  result.

  React renders only after a state cell has received a new value. A handler that writes
  into notes and gives every cell the value it already has is followed by no render, and
  the handlers keep the values of the render before.
\<close>

definition settled :: "env \<Rightarrow> Note list \<Rightarrow> jsstring list \<Rightarrow> app_state \<Rightarrow> memos \<times> app_state" where
  "settled ev notes aw st =
     (\<lparr>memoKey = databaseKey st, memoFilter = currentWorkspace st,
       memoWorkspaceNotes = notes, memoAvailableWorkspaces = aw,
       memoCmdKSuggestions = cmdKSuggestions ev notes aw st\<rparr>, st)"

definition render :: "env \<Rightarrow> memos option \<Rightarrow> app_state \<Rightarrow> error + (memos \<times> app_state)" where
  "render ev prev st =
     (let wn = useWorkspaceNotes prev st;
          aw = useAvailableWorkspaces prev st;
          notes = (if cmdKSearchQuery st = [] then sortNotes wn else wn);
          st1 = (if cmdKSearchQuery st = [] \<and> currentWorkspace st = None
                 then st\<lparr>database := notes\<rparr> else st)
      in case find (\<lambda>n. note_id n = currentNoteId st) notes of
           Some currentNote \<Rightarrow> Inr (settled ev notes aw (st1\<lparr>textValue := content currentNote\<rparr>))
         | None \<Rightarrow>
            (case notes of
               [] \<Rightarrow> Inl TypeError
             | n # _ \<Rightarrow>
                 Inr (settled ev notes aw
                        (st1\<lparr>currentNoteId := note_id n, textValue := content n\<rparr>))))"


section \<open>Running a suggestion\<close>

text \<open>
  The five \<open>onAction\<close> closures (lines 363-453) and \<open>runCmdKSuggestion\<close> (lines 531-540).
  \<open>currentNote\<close> is the note that the render found for
  \<open>currentNoteId\<close>; the unlink closure assigns to it without a test. The model finds the
  note again, by the same id, in the state that the closure runs on. Move and unlink
  write into that note and pass \<open>setDatabase\<close> the array it already holds; rename builds
  a new array with \<open>map\<close>.
\<close>

fun runAction :: "env \<Rightarrow> onAction \<Rightarrow> app_state \<Rightarrow> error + (bool \<times> app_state)" where
  "runAction ev (CreateNewNote q) st =
     Inr (True, (openNewNote q [] (getRandomId ev) (dateNow ev) st)
                  \<lparr>isCmdKMenuOpen := False,
                   selectedCmdKSuggestionIndex := Num 0,
                   cmdKSearchQuery := []\<rparr>)"
| "runAction ev (MoveNote w) st =
     (case currentNoteOf st of
        None \<Rightarrow> Inr (True, st)
      | Some currentNote \<Rightarrow>
          Inr (False,
               (openNote (note_id currentNote) (dateNow ev)
                  (st\<lparr>database := updateFirst (\<lambda>n. note_id n = currentNoteId st)
                                     (\<lambda>n. n\<lparr>workspace := Some w\<rparr>) (database st),
                      currentWorkspace := Some w,
                      selectedCmdKSuggestionIndex := Num 0\<rparr>))
                  \<lparr>cmdKSearchQuery := []\<rparr>))"
| "runAction ev (CreateWorkspace q) st =
     Inr (False, (openNewNote [] q (getRandomId ev) (dateNow ev) st)
                   \<lparr>selectedCmdKSuggestionIndex := Num 0,
                    currentWorkspace := Some q,
                    cmdKSearchQuery := []\<rparr>)"
| "runAction ev (RenameWorkspace q) st =
     Inr (False, st\<lparr>currentWorkspace := Some q,
                    selectedCmdKSuggestionIndex := Num 0,
                    database := map (\<lambda>n. if \<not> strictEq (workspace n) (currentWorkspace st)
                                          then n else n\<lparr>workspace := Some q\<rparr>) (database st),
                    databaseKey := Suc (databaseKey st),
                    cmdKSearchQuery := []\<rparr>)"
| "runAction ev UnlinkNote st =
     (case currentNoteOf st of
        None \<Rightarrow> Inl TypeError
      | Some currentNote \<Rightarrow>
          Inr (False, st\<lparr>database := sortNotes (updateFirst (\<lambda>n. note_id n = currentNoteId st)
                                                   (\<lambda>n. n\<lparr>workspace := None\<rparr>) (database st)),
                         currentWorkspace := None\<rparr>))"

fun runCmdKSuggestion ::
    "env \<Rightarrow> CmdKSuggestion option \<Rightarrow> app_state \<Rightarrow> error + (bool \<times> app_state)" where
  "runCmdKSuggestion ev None st = Inr (True, st)"
| "runCmdKSuggestion ev (Some (NoteSuggestion n)) st =
     Inr (True, openNote (note_id n) (dateNow ev) st)"
| "runCmdKSuggestion ev (Some (ActionSuggestion title body color act)) st = runAction ev act st"


section \<open>Keyboard handlers\<close>

text \<open>
  A handler runs with the state cells and the memoised values \<open>m\<close> of the latest render,
  and the calls of the state setters in one handler are one update of the state. The
  handlers read three memoised values: the list \<open>cmdKSuggestions\<close>, the length of
  \<open>workspaceNotes\<close>, and \<open>navigableWorkspaces\<close>, which is \<open>null\<close> in front of the memoised
  \<open>availableWorkspaces\<close>. Writes to \<open>localStorage\<close> are taken to succeed.
  Focus, scrolling and \<open>preventDefault\<close> are outside the state.
\<close>

definition vimUp :: "KeyboardEvent \<Rightarrow> bool" where
  "vimUp e = ((ctrlKey e \<or> metaKey e) \<and> key e = ''k'')"

definition vimDown :: "KeyboardEvent \<Rightarrow> bool" where
  "vimDown e = ((ctrlKey e \<or> metaKey e) \<and> key e = ''j'')"

definition vimLeft :: "KeyboardEvent \<Rightarrow> bool" where
  "vimLeft e = ((ctrlKey e \<or> metaKey e) \<and> key e = ''u'')"

definition vimRight :: "KeyboardEvent \<Rightarrow> bool" where
  "vimRight e = ((ctrlKey e \<or> metaKey e) \<and> key e = ''i'')"

text \<open>
  The last part of the open-palette branch (lines 636-663): one step through
  \<open>navigableWorkspaces\<close>.
  That array always holds \<open>null\<close>, so the modulus is positive, and \<open>currentIndex\<close> is a
  position of the array, so the index computed is one too.
\<close>

definition cycleWorkspace :: "memos \<Rightarrow> KeyboardEvent \<Rightarrow> app_state \<Rightarrow> app_state" where
  "cycleWorkspace m e st =
     (let nav = navigableWorkspaces (memoAvailableWorkspaces m);
          currentIndex = indexOf nav (currentWorkspace st)
      in if currentIndex = - 1 then st
         else
           (let n = int (length nav);
                leftIndex = (if vimLeft e \<or> key e = ''ArrowLeft''
                             then Some ((currentIndex - 1 + n) smod n) else None);
                nextWorkspaceIndex = (if vimRight e \<or> key e = ''ArrowRight''
                                      then Some ((currentIndex + 1) smod n) else leftIndex)
            in case nextWorkspaceIndex of
                 None \<Rightarrow> st
               | Some i \<Rightarrow>
                   (let nextWorkspace = nav ! nat i
                    in if nextWorkspace \<noteq> currentWorkspace st
                       then st\<lparr>selectedCmdKSuggestionIndex := Num 0,
                               currentWorkspace := nextWorkspace\<rparr>
                       else st)))"

text \<open>
  The branch \<open>if (isCmdKMenuOpen) { ... }\<close> of \<open>handleKeyDown\<close> (lines 565-666), in the order of the source:
  quick delete, undo, index navigation, Enter, workspace cycling. The state variable
  \<open>selectedCmdKSuggestionIndex\<close> is a number, so its tests against \<open>null\<close> always pass.
  \<open>suggestion.type\<close> throws when the array has no element at the index. Undo stores the
  new array \<open>sortNotes([...database, topOfStack])\<close>.
\<close>

definition paletteKeyDown ::
    "env \<Rightarrow> memos \<Rightarrow> KeyboardEvent \<Rightarrow> app_state \<Rightarrow> error + app_state" where
  "paletteKeyDown ev m e st =
     (let suggestions = memoCmdKSuggestions m;
          selected = selectedCmdKSuggestionIndex st;
          n = jsLength suggestions
      in if length (memoWorkspaceNotes m) > 1 \<and> key e = ''Backspace'' \<and> (ctrlKey e \<or> metaKey e)
         then (case jsIndex suggestions selected of
                 None \<Rightarrow> Inl TypeError
               | Some (NoteSuggestion note) \<Rightarrow>
                   Inr ((deleteNote (note_id note) st)
                          \<lparr>selectedCmdKSuggestionIndex := jsMax (jsSub selected (Num 1)) (Num 0)\<rparr>)
               | Some (ActionSuggestion title body color act) \<Rightarrow> Inr st)
         else if freshlyDeletedNotes st \<noteq> [] \<and> key e = ''z'' \<and> (ctrlKey e \<or> metaKey e)
         then Inr (st\<lparr>freshlyDeletedNotes := butlast (freshlyDeletedNotes st),
                      database := sortNotes (database st @ [last (freshlyDeletedNotes st)]),
                      databaseKey := Suc (databaseKey st)\<rparr>)
         else if key e = ''ArrowUp'' \<or> vimUp e
         then Inr (st\<lparr>selectedCmdKSuggestionIndex := jsRem (jsAdd (jsSub selected (Num 1)) n) n\<rparr>)
         else if key e = ''ArrowDown'' \<or> vimDown e
         then Inr (st\<lparr>selectedCmdKSuggestionIndex := jsRem (jsAdd selected (Num 1)) n\<rparr>)
         else if key e = ''Enter''
         then (case runCmdKSuggestion ev (jsIndex suggestions selected) st of
                 Inl err \<Rightarrow> Inl err
               | Inr (shouldCloseCmdK, st1) \<Rightarrow>
                   Inr (if shouldCloseCmdK
                        then st1\<lparr>isCmdKMenuOpen := False, selectedCmdKSuggestionIndex := Num 0\<rparr>
                        else st1))
         else Inr (cycleWorkspace m e st))"

text \<open>
  The rest of \<open>handleKeyDown\<close> (lines 668-702), reached when the palette is closed;
  \<open>handleKeyDown\<close> itself (lines 543-565); and \<open>handleKeyUp\<close> (lines 705-725).
\<close>

definition closedKeyDown :: "env \<Rightarrow> KeyboardEvent \<Rightarrow> app_state \<Rightarrow> app_state" where
  "closedKeyDown ev e st =
     (if isHelpMenuOpen st \<and> (key e = ''Escape'' \<or> key e = ''Enter'')
      then st\<lparr>isHelpMenuOpen := \<not> isHelpMenuOpen st\<rparr>
      else if (key e = ''p'' \<or> key e = ''k'') \<and> (metaKey e \<or> ctrlKey e)
      then st\<lparr>selectedCmdKSuggestionIndex := Num 0, isCmdKMenuOpen := True,
              isHelpMenuOpen := False, cmdKSearchQuery := []\<rparr>
      else if key e = ''Enter'' \<and> (metaKey e \<or> ctrlKey e) \<and> shiftKey e
              \<and> trim (textValue st) \<noteq> []
      then openNewNote [] [] (getRandomId ev) (dateNow ev) st
      else st)"

definition handleKeyDown ::
    "env \<Rightarrow> memos \<Rightarrow> KeyboardEvent \<Rightarrow> app_state \<Rightarrow> error + app_state" where
  "handleKeyDown ev m e st =
     (if isCmdKMenuOpen st \<and> key e = ''Escape'' then Inr (st\<lparr>isCmdKMenuOpen := False\<rparr>)
      else if isCmdKMenuOpen st
      then paletteKeyDown ev m e
             (if vimUp e \<or> vimDown e \<or> vimLeft e \<or> vimRight e
              then st\<lparr>hasVimNavigated := True\<rparr> else st)
      else Inr (closedKeyDown ev e st))"

definition handleKeyUp ::
    "env \<Rightarrow> memos \<Rightarrow> KeyboardEvent \<Rightarrow> app_state \<Rightarrow> error + app_state" where
  "handleKeyUp ev m e st =
     (if hasVimNavigated st \<and> isCmdKMenuOpen st \<and> (key e = ''Meta'' \<or> key e = ''Control'')
      then (case (if length (memoCmdKSuggestions m) > 0
                  then runCmdKSuggestion ev
                         (jsIndex (memoCmdKSuggestions m) (selectedCmdKSuggestionIndex st)) st
                  else Inr (True, st)) of
              Inl err \<Rightarrow> Inl err
            | Inr (shouldCloseCmdK, st1) \<Rightarrow>
                Inr ((if shouldCloseCmdK then st1\<lparr>isCmdKMenuOpen := False\<rparr> else st1)
                       \<lparr>hasVimNavigated := False\<rparr>))
      else Inr st)"

text \<open>
  \<open>onChange\<close> of the search input (lines 1066-1069), and the click on the overlay
  (lines 1042-1044).
\<close>

definition searchInputChange :: "jsstring \<Rightarrow> app_state \<Rightarrow> app_state" where
  "searchInputChange v st = st\<lparr>cmdKSearchQuery := v, selectedCmdKSuggestionIndex := Num 0\<rparr>"

definition overlayClick :: "app_state \<Rightarrow> app_state" where
  "overlayClick st = st\<lparr>isCmdKMenuOpen := False\<rparr>"


section \<open>Export and import\<close>

text \<open>
  The export button (lines 975-990) and the import input (lines 998-1013).
  \<open>JSON.stringify\<close>, \<open>JSON.parse\<close> and the two functions of the library lz-string are
  taken as given. \<open>decompressFromEncodedURIComponent\<close> may return \<open>null\<close> (\<open>None\<close>), and
  \<open>JSON.parse\<close> may throw. The import replaces the store, by the array that \<open>JSON.parse\<close>
  returns, when the decompressed text is truthy.
\<close>

record codec =
  stringify :: "Note list \<Rightarrow> jsstring"
  parse :: "jsstring \<Rightarrow> Note list option"
  compressToEncodedURIComponent :: "jsstring \<Rightarrow> jsstring"
  decompressFromEncodedURIComponent :: "jsstring \<Rightarrow> jsstring option"

definition exportNotes :: "codec \<Rightarrow> app_state \<Rightarrow> jsstring" where
  "exportNotes c st = compressToEncodedURIComponent c (stringify c (database st))"

definition importNotes :: "codec \<Rightarrow> jsstring \<Rightarrow> app_state \<Rightarrow> error + app_state" where
  "importNotes c fileText st =
     (case decompressFromEncodedURIComponent c fileText of
        None \<Rightarrow> Inr st
      | Some decompressedContent \<Rightarrow>
          if decompressedContent = [] then Inr st
          else (case parse c decompressedContent of
                  None \<Rightarrow> Inl SyntaxError
                | Some parsed \<Rightarrow>
                    Inr (st\<lparr>database := parsed, databaseKey := Suc (databaseKey st)\<rparr>)))"


section \<open>Sequences of key presses\<close>

text \<open>
  The keys of workspace cycling write into no note, so a render follows one of their
  handlers exactly when the handler has changed the state. The same such key pressed
  \<open>k\<close> times, each handler with the memoised values of the render before it; an
  exception in a handler or in a render ends the sequence.
\<close>

fun repeatKeyDownRendered ::
    "env \<Rightarrow> KeyboardEvent \<Rightarrow> nat \<Rightarrow> memos \<times> app_state \<Rightarrow> error + (memos \<times> app_state)" where
  "repeatKeyDownRendered ev e 0 ms = Inr ms"
| "repeatKeyDownRendered ev e (Suc k) ms =
     (case handleKeyDown ev (fst ms) e (snd ms) of
        Inl err \<Rightarrow> Inl err
      | Inr st1 \<Rightarrow>
          if st1 = snd ms then repeatKeyDownRendered ev e k ms
          else (case render ev (Some (fst ms)) st1 of
                  Inl err \<Rightarrow> Inl err
                | Inr ms1 \<Rightarrow> repeatKeyDownRendered ev e k ms1))"


section \<open>Example inputs\<close>

text \<open>
  Fuse is a library outside the program, and the development is parametric in its two
  searches. The closed examples use a search that returns, in index order, the items
  whose text contains the query. The examples are chosen where this is also what Fuse
  returns: a note whose whole text is the query ranks before a longer note that
  contains it, and a query of two spaces matches no text of at most one space.
\<close>

definition substringSearch :: "('a \<Rightarrow> jsstring) \<Rightarrow> 'a list \<Rightarrow> jsstring \<Rightarrow> 'a list" where
  "substringSearch field xs q = filter (\<lambda>x. includes_str (field x) q) xs"

definition exampleEnv :: env where
  "exampleEnv = \<lparr>notesFuse = substringSearch content, workspaceFuse = substringSearch (\<lambda>w. w),
                 getRandomId = js ''fresh'', dateNow = 100\<rparr>"

definition noteA :: Note where
  "noteA = \<lparr>note_id = js ''a'', content = js ''x'', updatedAt = 1, workspace = Some (js ''w'')\<rparr>"

definition noteB :: Note where
  "noteB = \<lparr>note_id = js ''b'', content = js ''x y'', updatedAt = 2, workspace = None\<rparr>"

text \<open>
  Two notes, the older one tagged \<open>w\<close> and active, no workspace filter, the palette open
  with an empty query.
\<close>

definition baseState :: app_state where
  "baseState = \<lparr>database = [noteA, noteB], databaseKey = 0, currentWorkspace = None,
      currentNoteId = js ''a'',
      textValue = js ''x'', lastAceCursorPosition = (0, 0),
      selectedCmdKSuggestionIndex = Num 0, cmdKSearchQuery = [], isCmdKMenuOpen = True,
      hasVimNavigated = False, isHelpMenuOpen = False, freshlyDeletedNotes = []\<rparr>"

definition pressed :: "string \<Rightarrow> KeyboardEvent" where
  "pressed k = \<lparr>key = k, ctrlKey = False, metaKey = False, shiftKey = False\<rparr>"

definition withCtrl :: "string \<Rightarrow> KeyboardEvent" where
  "withCtrl k = \<lparr>key = k, ctrlKey = True, metaKey = False, shiftKey = False\<rparr>"

text \<open>
  The two notes as a render with no filter and an empty query leaves them, latest
  first, and what that render leaves to the handlers.
\<close>

definition sortedState :: app_state where
  "sortedState = baseState\<lparr>database := [noteB, noteA]\<rparr>"

definition sortedMemos :: memos where
  "sortedMemos = \<lparr>memoKey = 0, memoFilter = None, memoWorkspaceNotes = [noteB, noteA],
      memoAvailableWorkspaces = [js ''w''],
      memoCmdKSuggestions = [NoteSuggestion noteB, NoteSuggestion noteA,
                             unlinkSuggestion (js ''w'')]\<rparr>"

text \<open>
  The same store, latest first, as it is while the palette is open. The note without
  a workspace is active, and the query is two spaces: no note contains
  it, and trimmed it is empty. \<open>blankQueryMemos\<close> is what the render of this state
  leaves.
\<close>

definition blankQueryState :: app_state where
  "blankQueryState = sortedState\<lparr>cmdKSearchQuery := js ''  '', currentNoteId := js ''b'',
                                  textValue := js ''x y''\<rparr>"

definition blankQueryMemos :: memos where
  "blankQueryMemos = \<lparr>memoKey = 0, memoFilter = None, memoWorkspaceNotes = [noteB, noteA],
      memoAvailableWorkspaces = [js ''w''], memoCmdKSuggestions = []\<rparr>"

text \<open>The active note is the only one in the filter \<open>w\<close>.\<close>

definition filteredState :: app_state where
  "filteredState = baseState\<lparr>currentWorkspace := Some (js ''w'')\<rparr>"

text \<open>
  Four notes, three of them in the filter \<open>w\<close>; the first note of the store is outside
  the filter, and the active note is the second.
\<close>

definition noteC :: Note where
  "noteC = \<lparr>note_id = js ''c'', content = js ''x'', updatedAt = 3, workspace = Some (js ''w'')\<rparr>"

definition noteD :: Note where
  "noteD = \<lparr>note_id = js ''d'', content = js ''x'', updatedAt = 4, workspace = Some (js ''w'')\<rparr>"

definition fourNotesState :: app_state where
  "fourNotesState = baseState\<lparr>database := [noteB, noteA, noteC, noteD],
                               currentWorkspace := Some (js ''w'')\<rparr>"

text \<open>The query \<open>p\<close> between two spaces, typed under the filter \<open>w\<close>.\<close>

definition renameState :: app_state where
  "renameState = baseState\<lparr>currentWorkspace := Some (js ''w''), cmdKSearchQuery := js '' p ''\<rparr>"

text \<open>
  The second suggestion, \<open>noteA\<close>, selected after a navigation chord; and the state that
  running this suggestion at time 100 leaves, before the handler closes the palette.
\<close>

definition chordState :: app_state where
  "chordState = sortedState\<lparr>selectedCmdKSuggestionIndex := Num 1, hasVimNavigated := True\<rparr>"

definition openedState :: app_state where
  "openedState = chordState\<lparr>lastAceCursorPosition := (0, 0), currentNoteId := js ''a'',
                             database := [noteB, noteA\<lparr>updatedAt := 100\<rparr>]\<rparr>"

text \<open>
  The third suggestion, unlink, selected with no filter; the state that running it
  leaves, in which only the elements of \<open>database\<close> differ; and that state after
  ArrowRight.
\<close>

definition unlinkState :: app_state where
  "unlinkState = sortedState\<lparr>selectedCmdKSuggestionIndex := Num 2\<rparr>"

definition staleState :: app_state where
  "staleState = unlinkState\<lparr>database := [noteB, noteA\<lparr>workspace := None\<rparr>]\<rparr>"

definition emptyFilterState :: app_state where
  "emptyFilterState = staleState\<lparr>selectedCmdKSuggestionIndex := Num 0,
                                  currentWorkspace := Some (js ''w'')\<rparr>"

text \<open>
  Every note of the store carries the filter \<open>w\<close>, the older one is active and unlink,
  the third suggestion, is selected; the state that running unlink leaves; and what
  the renders of the two states leave.
\<close>

definition taggedState :: app_state where
  "taggedState = baseState\<lparr>database := [noteC, noteA], currentWorkspace := Some (js ''w''),
                            selectedCmdKSuggestionIndex := Num 2\<rparr>"

definition taggedMemos :: memos where
  "taggedMemos = \<lparr>memoKey = 0, memoFilter = Some (js ''w''),
      memoWorkspaceNotes = [noteC, noteA], memoAvailableWorkspaces = [js ''w''],
      memoCmdKSuggestions = [NoteSuggestion noteC, NoteSuggestion noteA,
                             unlinkSuggestion (js ''w'')]\<rparr>"

definition untaggedState :: app_state where
  "untaggedState = taggedState\<lparr>database := [noteC, noteA\<lparr>workspace := None\<rparr>],
                               currentWorkspace := None\<rparr>"

definition untaggedMemos :: memos where
  "untaggedMemos = \<lparr>memoKey = 0, memoFilter = None,
      memoWorkspaceNotes = [noteC, noteA\<lparr>workspace := None\<rparr>],
      memoAvailableWorkspaces = [js ''w''],
      memoCmdKSuggestions = [NoteSuggestion noteC, NoteSuggestion (noteA\<lparr>workspace := None\<rparr>)]\<rparr>"

text \<open>
  The older note of the filter \<open>w\<close> opened at time 100, and what the render that follows
  leaves: the array \<open>workspaceNotes\<close> is kept, and holds the note with its new time.
\<close>

definition stampedState :: app_state where
  "stampedState = taggedState\<lparr>database := [noteC, noteA\<lparr>updatedAt := 100\<rparr>]\<rparr>"

definition stampedMemos :: memos where
  "stampedMemos = \<lparr>memoKey = 0, memoFilter = Some (js ''w''),
      memoWorkspaceNotes = [noteA\<lparr>updatedAt := 100\<rparr>, noteC],
      memoAvailableWorkspaces = [js ''w''],
      memoCmdKSuggestions = [NoteSuggestion (noteA\<lparr>updatedAt := 100\<rparr>), NoteSuggestion noteC,
                             unlinkSuggestion (js ''w'')]\<rparr>"

text \<open>
  Two workspaces: the latest note carries \<open>v\<close>, the active and older one \<open>w\<close>; what the
  render of this state leaves; and the state and the values after the older note is
  opened at time 100 and the App has rendered.
\<close>

definition noteE :: Note where
  "noteE = \<lparr>note_id = js ''e'', content = js ''x'', updatedAt = 3, workspace = Some (js ''v'')\<rparr>"

definition twoWorkspacesState :: app_state where
  "twoWorkspacesState = baseState\<lparr>database := [noteE, noteA]\<rparr>"

definition twoWorkspacesMemos :: memos where
  "twoWorkspacesMemos = \<lparr>memoKey = 0, memoFilter = None, memoWorkspaceNotes = [noteE, noteA],
      memoAvailableWorkspaces = [js ''v'', js ''w''],
      memoCmdKSuggestions = [NoteSuggestion noteE, NoteSuggestion noteA,
                             unlinkSuggestion (js ''w'')]\<rparr>"

definition reopenedState :: app_state where
  "reopenedState = twoWorkspacesState\<lparr>database := [noteA\<lparr>updatedAt := 100\<rparr>, noteE]\<rparr>"

definition reopenedMemos :: memos where
  "reopenedMemos = \<lparr>memoKey = 0, memoFilter = None,
      memoWorkspaceNotes = [noteA\<lparr>updatedAt := 100\<rparr>, noteE],
      memoAvailableWorkspaces = [js ''v'', js ''w''],
      memoCmdKSuggestions = [NoteSuggestion (noteA\<lparr>updatedAt := 100\<rparr>), NoteSuggestion noteE,
                             unlinkSuggestion (js ''w'')]\<rparr>"

text \<open>A store whose only note has the empty string as its id.\<close>

definition emptyIdState :: app_state where
  "emptyIdState = baseState\<lparr>database := [noteA\<lparr>note_id := []\<rparr>], currentNoteId := []\<rparr>"

text \<open>A codec for the example of the export: the notes' ids between brackets, reversed.\<close>

definition exampleCodec :: codec where
  "exampleCodec = \<lparr>stringify = (\<lambda>notes. js ''['' @ concat (map note_id notes) @ js '']''),
                   parse = (\<lambda>s. if s = js ''[ab]'' then Some [noteA, noteB] else None),
                   compressToEncodedURIComponent = rev,
                   decompressFromEncodedURIComponent = (\<lambda>s. Some (rev s))\<rparr>"

section \<open>Facts about the definitions\<close>

lemmas example_defs = exampleEnv_def substringSearch_def noteA_def noteB_def noteC_def noteD_def
  noteE_def baseState_def blankQueryState_def filteredState_def fourNotesState_def renameState_def
  sortedState_def chordState_def openedState_def unlinkState_def staleState_def
  emptyFilterState_def taggedState_def untaggedState_def stampedState_def twoWorkspacesState_def
  reopenedState_def emptyIdState_def
  pressed_def withCtrl_def js_def includes_str_def sublist_code(3) Let_def

lemmas suggestion_defs = cmdKSuggestions_def cmdKNotes_def cmdKActions_def
  currentNoteOf_def trimmedCmdKQuery_def trim_def isWhiteSpace_def
  sortNotes_def unlinkTitle_def createNewNoteSuggestion_def moveNoteSuggestion_def
  createWorkspaceSuggestion_def renameWorkspaceSuggestion_def unlinkSuggestion_def

lemmas key_defs = pressed_def withCtrl_def vimUp_def vimDown_def vimLeft_def vimRight_def

subsection \<open>Sorting by recency\<close>

lemma mset_sortNotes: "mset (sortNotes xs) = mset xs"
  by (simp add: sortNotes_def)

lemma set_sortNotes: "set (sortNotes xs) = set xs"
  by (simp add: sortNotes_def)

lemma length_sortNotes: "length (sortNotes xs) = length xs"
  by (simp add: sortNotes_def)

lemma sortNotes_descending: "sorted_wrt (\<lambda>a b. updatedAt b \<le> updatedAt a) (sortNotes xs)"
proof -
  have "sorted (map (\<lambda>n. - updatedAt n) (sortNotes xs))"
    by (simp add: sortNotes_def)
  then show ?thesis
    by (simp add: sorted_map)
qed

lemma sortNotes_stable:
  "filter (\<lambda>n. updatedAt n = t) (sortNotes xs) = filter (\<lambda>n. updatedAt n = t) xs"
  using sort_key_stable [of "\<lambda>n. - updatedAt n" "- t" xs] by (simp add: sortNotes_def)

lemma sortNotes_idem: "sortNotes (sortNotes xs) = sortNotes xs"
  by (simp add: sortNotes_def sort_key_id_if_sorted)

lemma hd_sort_key_least:
  fixes f :: "'a \<Rightarrow> int"
  assumes "x \<in> set xs" and "\<forall>y \<in> set xs. y \<noteq> x \<longrightarrow> f x < f y"
  shows "hd (sort_key f xs) = x"
proof (rule ccontr)
  let ?ys = "sort_key f xs"
  assume neq: "hd ?ys \<noteq> x"
  have ne: "?ys \<noteq> []"
    using assms(1) by (metis length_sort length_0_conv empty_iff empty_set)
  then have hd_in: "hd ?ys \<in> set xs"
    using hd_in_set [OF ne] by simp
  have "x \<in> set ?ys" using assms(1) by simp
  moreover have "sorted (map f ?ys)" by simp
  ultimately have "f (hd ?ys) \<le> f x"
    using ne by (cases ?ys) auto
  with assms(2) hd_in neq show False by force
qed

subsection \<open>Finding and updating\<close>

lemma updateFirst_split:
  "find p xs = Some x \<Longrightarrow>
   \<exists>pre post. xs = pre @ x # post \<and> (\<forall>y \<in> set pre. \<not> p y)
              \<and> updateFirst p f xs = pre @ f x # post"
proof (induction xs)
  case Nil
  then show ?case by simp
next
  case (Cons a xs)
  show ?case
  proof (cases "p a")
    case True
    with Cons.prems have "a = x" by simp
    with True have "a # xs = [] @ x # xs \<and> (\<forall>y \<in> set []. \<not> p y)
        \<and> updateFirst p f (a # xs) = [] @ f x # xs"
      by simp
    then show ?thesis by blast
  next
    case False
    with Cons obtain pre post where
      "xs = pre @ x # post" "\<forall>y \<in> set pre. \<not> p y" "updateFirst p f xs = pre @ f x # post"
      by auto
    with False have "a # xs = (a # pre) @ x # post \<and> (\<forall>y \<in> set (a # pre). \<not> p y)
        \<and> updateFirst p f (a # xs) = (a # pre) @ f x # post"
      by simp
    then show ?thesis by blast
  qed
qed

lemma filter_found_distinct:
  "distinct (map f xs) \<Longrightarrow> find (\<lambda>n. f n = k) xs = Some d \<Longrightarrow> filter (\<lambda>n. f n = k) xs = [d]"
proof (induction xs)
  case Nil
  then show ?case by simp
next
  case (Cons x xs)
  show ?case
  proof (cases "f x = k")
    case True
    with Cons.prems have "d = x" and "k \<notin> f ` set xs"
      by auto
    then have "filter (\<lambda>n. f n = k) xs = []"
      by (auto simp: filter_empty_conv)
    with True \<open>d = x\<close> show ?thesis
      by simp
  next
    case False
    with Cons show ?thesis
      by simp
  qed
qed

lemma mset_delete_restore:
  assumes "distinct (map note_id xs)" and "find (\<lambda>n. note_id n = nid) xs = Some d"
  shows "mset (filter (\<lambda>n. note_id n \<noteq> nid) xs) + {#d#} = mset xs"
proof -
  have "mset xs = mset (filter (\<lambda>n. note_id n = nid) xs)
                + mset (filter (\<lambda>n. note_id n \<noteq> nid) xs)"
    by (induction xs) auto
  with filter_found_distinct [OF assms] show ?thesis
    by simp
qed

lemma strictEq_iff: "strictEq a b \<longleftrightarrow> (\<exists>w. b = Some w \<and> a = Some w)"
  by (cases a; cases b) auto

subsection \<open>Workspaces\<close>

lemma collectWorkspaces_prefix: "prefix acc (collectWorkspaces ns acc)"
proof (induction ns arbitrary: acc)
  case Nil
  then show ?case by simp
next
  case (Cons n ns)
  have "prefix acc (acc @ [w])" for w :: jsstring
    by simp
  then have "prefix acc (collectWorkspaces ns (acc @ [w]))" for w
    using Cons.IH [of "acc @ [w]"] prefix_order.order_trans by blast
  with Cons.IH [of acc] show ?case
    by (simp split: option.splits)
qed

lemma hd_collectWorkspaces: "hd (collectWorkspaces ns (w # acc)) = w"
  using collectWorkspaces_prefix [of "w # acc" ns] by (auto simp: prefix_def)

lemma distinct_collectWorkspaces: "distinct acc \<Longrightarrow> distinct (collectWorkspaces ns acc)"
  by (induction ns arbitrary: acc) (auto split: option.splits)

lemma distinct_computeAvailableWorkspaces: "distinct (computeAvailableWorkspaces notes)"
  by (simp add: computeAvailableWorkspaces_def distinct_collectWorkspaces)

lemma distinct_navigableWorkspaces: "distinct aw \<Longrightarrow> distinct (navigableWorkspaces aw)"
  by (auto simp: navigableWorkspaces_def distinct_map)

lemma indexOf_nth: "distinct xs \<Longrightarrow> i < length xs \<Longrightarrow> indexOf xs (xs ! i) = int i"
proof (induction xs arbitrary: i)
  case Nil
  then show ?case by simp
next
  case (Cons y ys)
  show ?case
  proof (cases i)
    case 0
    then show ?thesis by simp
  next
    case (Suc j)
    with Cons.prems have "j < length ys" and "y \<noteq> ys ! j" and "distinct ys"
      by auto
    with Cons.IH [of j] Suc show ?thesis
      by (simp add: Let_def)
  qed
qed

lemma smod_nonneg: "0 \<le> a \<Longrightarrow> 0 < b \<Longrightarrow> a smod b = a mod (b::int)"
  by (simp add: signed_modulo_int_def sgn_if)

text \<open>The two array reads of \<open>cycleWorkspace\<close> are inside the array.\<close>

lemma indexOf_range:
  "indexOf xs x = - 1 \<or> (0 \<le> indexOf xs x \<and> indexOf xs x < int (length xs))"
  by (induction xs) (auto simp: Let_def)

lemma cycleWorkspace_reads_in_range:
  assumes "indexOf nav (currentWorkspace st) = i" and "i \<noteq> - 1"
  shows "nat ((i + 1) smod int (length nav)) < length nav"
    and "nat ((i - 1 + int (length nav)) smod int (length nav)) < length nav"
proof -
  let ?n = "int (length nav)"
  have i: "0 \<le> i" "i < ?n"
    using indexOf_range [of nav "currentWorkspace st"] assms by auto
  then have pos: "0 < ?n"
    by linarith
  have "(i + 1) smod ?n = (i + 1) mod ?n" "(i - 1 + ?n) smod ?n = (i - 1 + ?n) mod ?n"
    using i pos by (simp_all add: smod_nonneg)
  moreover have "(i + 1) mod ?n < ?n" "(i - 1 + ?n) mod ?n < ?n"
    using pos by simp_all
  moreover have "0 \<le> (i + 1) mod ?n" "0 \<le> (i - 1 + ?n) mod ?n"
    using pos by simp_all
  ultimately show "nat ((i + 1) smod ?n) < length nav"
    and "nat ((i - 1 + ?n) smod ?n) < length nav"
    by linarith+
qed

subsection \<open>What the suggestions do not depend on\<close>

lemma workspaceNotes_frame [simp]:
  "workspaceNotes (st\<lparr>selectedCmdKSuggestionIndex := i\<rparr>) = workspaceNotes st"
  "workspaceNotes (st\<lparr>hasVimNavigated := b\<rparr>) = workspaceNotes st"
  "workspaceNotes (st\<lparr>isCmdKMenuOpen := b\<rparr>) = workspaceNotes st"
  by (simp_all add: workspaceNotes_def cong: option.case_cong)

lemma currentNoteOf_frame [simp]:
  "currentNoteOf (st\<lparr>selectedCmdKSuggestionIndex := i\<rparr>) = currentNoteOf st"
  "currentNoteOf (st\<lparr>hasVimNavigated := b\<rparr>) = currentNoteOf st"
  "currentNoteOf (st\<lparr>isCmdKMenuOpen := b\<rparr>) = currentNoteOf st"
  "currentNoteOf (st\<lparr>textValue := v\<rparr>) = currentNoteOf st"
  by (simp_all add: currentNoteOf_def)

lemma trimmedCmdKQuery_frame [simp]:
  "trimmedCmdKQuery (st\<lparr>selectedCmdKSuggestionIndex := i\<rparr>) = trimmedCmdKQuery st"
  "trimmedCmdKQuery (st\<lparr>hasVimNavigated := b\<rparr>) = trimmedCmdKQuery st"
  "trimmedCmdKQuery (st\<lparr>isCmdKMenuOpen := b\<rparr>) = trimmedCmdKQuery st"
  "trimmedCmdKQuery (st\<lparr>textValue := v\<rparr>) = trimmedCmdKQuery st"
  by (simp_all add: trimmedCmdKQuery_def)

lemma cmdKSuggestions_frame [simp]:
  "cmdKSuggestions ev wn aw (st\<lparr>selectedCmdKSuggestionIndex := i\<rparr>) = cmdKSuggestions ev wn aw st"
  "cmdKSuggestions ev wn aw (st\<lparr>hasVimNavigated := b\<rparr>) = cmdKSuggestions ev wn aw st"
  "cmdKSuggestions ev wn aw (st\<lparr>isCmdKMenuOpen := b\<rparr>) = cmdKSuggestions ev wn aw st"
  "cmdKSuggestions ev wn aw (st\<lparr>textValue := v\<rparr>) = cmdKSuggestions ev wn aw st"
  by (simp_all add: cmdKSuggestions_def cmdKNotes_def cmdKActions_def Let_def
      cong: option.case_cong list.case_cong if_cong)

subsection \<open>The store operations\<close>

lemma deleteNote_found:
  assumes "find (\<lambda>n. note_id n = nid) (database st) = Some d"
  shows "freshlyDeletedNotes (deleteNote nid st) = freshlyDeletedNotes st @ [d]"
    and "database (deleteNote nid st) = filter (\<lambda>n. note_id n \<noteq> nid) (database st)"
    and "isCmdKMenuOpen (deleteNote nid st) = isCmdKMenuOpen st"
    and "currentWorkspace (deleteNote nid st) = currentWorkspace st"
    and "cmdKSearchQuery (deleteNote nid st) = cmdKSearchQuery st"
    and "databaseKey (deleteNote nid st) = Suc (databaseKey st)"
  using assms by (simp_all add: deleteNote_def Let_def)

lemma deleteNote_active:
  assumes "find (\<lambda>n. note_id n = nid) (database st) = Some d" and "currentNoteId st = nid"
    and "filter (\<lambda>n. note_id n \<noteq> nid) (database st) = n # ns"
  shows "currentNoteId (deleteNote nid st) = note_id n"
  using assms by (simp add: deleteNote_def Let_def)

lemma workspaceNotes_deleteNote:
  assumes "find (\<lambda>n. note_id n = nid) (database st) = Some d"
  shows "workspaceNotes (deleteNote nid st) = filter (\<lambda>n. note_id n \<noteq> nid) (workspaceNotes st)"
  using deleteNote_found(2,4) [OF assms]
  by (auto simp: workspaceNotes_def split: option.splits intro: filter_cong)

lemma set_renderedWorkspaceNotes: "set (renderedWorkspaceNotes st) = set (workspaceNotes st)"
  by (simp add: renderedWorkspaceNotes_def set_sortNotes)

lemma workspaceNotes_subset: "set (workspaceNotes st) \<subseteq> set (database st)"
  by (auto simp: workspaceNotes_def split: option.splits)

lemma hd_workspaceNotes:
  assumes "database st = n # ns" and "n \<in> set (workspaceNotes st)"
  shows "hd (workspaceNotes st) = n"
  using assms by (auto simp: workspaceNotes_def split: option.splits)

lemma find_by_id_distinct:
  assumes "distinct (map note_id xs)" and "n \<in> set xs" and "set ys \<subseteq> set xs"
  shows "find (\<lambda>m. note_id m = note_id n) ys = (if n \<in> set ys then Some n else None)"
proof (cases "find (\<lambda>m. note_id m = note_id n) ys")
  case None
  then have "n \<notin> set ys"
    by (auto simp: find_None_iff)
  with None show ?thesis by simp
next
  case (Some m)
  then have "m \<in> set ys" and "note_id m = note_id n"
    by (auto simp: find_Some_iff)
  with assms have "m = n"
    by (meson distinct_map inj_onD subsetD)
  with Some \<open>m \<in> set ys\<close> show ?thesis by simp
qed

lemma length_filter_key: "distinct (map f xs) \<Longrightarrow> length (filter (\<lambda>n. f n = k) xs) \<le> 1"
  by (induction xs) (auto simp: filter_empty_conv image_iff)

lemma currentNoteEffect_found:
  assumes "find (\<lambda>n. note_id n = currentNoteId st) (renderedWorkspaceNotes st) = Some n"
  shows "\<exists>s. currentNoteEffect st = Inr s \<and> currentNoteId s = currentNoteId st"
  using assms by (simp add: currentNoteEffect_def Let_def)

lemma currentNoteEffect_fallback:
  assumes "find (\<lambda>n. note_id n = currentNoteId st) (renderedWorkspaceNotes st) = None"
    and "renderedWorkspaceNotes st \<noteq> []"
  shows "\<exists>s. currentNoteEffect st = Inr s
             \<and> currentNoteId s = note_id (hd (renderedWorkspaceNotes st))"
  using assms by (cases "renderedWorkspaceNotes st") (simp_all add: currentNoteEffect_def Let_def)

lemma effect_frame:
  assumes "currentNoteEffect s0 = Inr s1"
  shows "freshlyDeletedNotes s1 = freshlyDeletedNotes s0"
    and "isCmdKMenuOpen s1 = isCmdKMenuOpen s0"
    and "currentWorkspace s1 = currentWorkspace s0"
    and "cmdKSearchQuery s1 = cmdKSearchQuery s0"
    and "database s1 = database s0 \<or> database s1 = sortNotes (database s0)"
    and "databaseKey s1 = databaseKey s0"
  using assms
  by (auto simp: currentNoteEffect_def renderedWorkspaceNotes_def workspaceNotes_def Let_def
      split: option.splits list.splits if_splits)

subsection \<open>Renders\<close>

lemma useWorkspaceNotes_first: "useWorkspaceNotes None st = workspaceNotes st"
  by (simp add: useWorkspaceNotes_def)

lemma useWorkspaceNotes_new:
  assumes "memoKey m \<noteq> databaseKey st \<or> memoFilter m \<noteq> currentWorkspace st
           \<or> currentWorkspace st = None"
  shows "useWorkspaceNotes (Some m) st = workspaceNotes st"
  using assms by (auto simp: useWorkspaceNotes_def workspaceNotes_def)

lemma useAvailableWorkspaces_kept:
  "memoKey m = databaseKey st \<Longrightarrow> useAvailableWorkspaces (Some m) st = memoAvailableWorkspaces m"
  by (simp add: useAvailableWorkspaces_def)

text \<open>
  When \<open>workspaceNotes\<close> is computed anew, the state that a render leaves is the one
  that \<open>currentNoteEffect\<close> gives, and the render throws when \<open>currentNoteEffect\<close> does.
\<close>

lemma render_state:
  assumes "useWorkspaceNotes prev st = workspaceNotes st"
  shows "map_sum id snd (render ev prev st) = currentNoteEffect st"
  using assms
  by (simp add: render_def currentNoteEffect_def renderedWorkspaceNotes_def settled_def Let_def
      split: option.splits list.splits)

lemma render_memos:
  assumes "render ev prev st = Inr (m', st')"
  shows "memoKey m' = databaseKey st'" and "memoFilter m' = currentWorkspace st'"
    and "memoAvailableWorkspaces m' = useAvailableWorkspaces prev st"
  using assms
  by (auto simp: render_def settled_def Let_def split: option.splits list.splits if_splits)

lemma deleteNote_render:
  assumes "find (\<lambda>n. note_id n = nid) (database st) = Some d" and "memoKey m = databaseKey st"
  shows "map_sum id snd (render ev (Some m) (deleteNote nid st))
           = currentNoteEffect (deleteNote nid st)"
proof -
  have "memoKey m \<noteq> databaseKey (deleteNote nid st)"
    using assms by (simp add: deleteNote_def Let_def)
  then show ?thesis
    by (intro render_state useWorkspaceNotes_new) simp
qed

subsection \<open>The handlers, branch by branch\<close>

lemma jsIndex_Nil [simp]: "jsIndex [] i = None"
  by (cases i) simp_all

lemma undo_step:
  assumes "isCmdKMenuOpen s" and "freshlyDeletedNotes s = stack @ [d]"
    and "key e = ''z''" and "ctrlKey e \<or> metaKey e"
  shows "handleKeyDown ev m e s =
           Inr (s\<lparr>freshlyDeletedNotes := stack, database := sortNotes (database s @ [d]),
                  databaseKey := Suc (databaseKey s)\<rparr>)"
  using assms
  by (simp add: handleKeyDown_def paletteKeyDown_def vimUp_def vimDown_def vimLeft_def
      vimRight_def Let_def)

lemma undo_empty_stack:
  assumes "freshlyDeletedNotes s = []" and "key e = ''z''"
  shows "handleKeyDown ev m e s = Inr s"
  using assms
  by (simp add: handleKeyDown_def paletteKeyDown_def closedKeyDown_def cycleWorkspace_def
      vimUp_def vimDown_def vimLeft_def vimRight_def Let_def)

lemma handleKeyDown_Enter:
  assumes "isCmdKMenuOpen st" and "key e = ''Enter''"
  shows "handleKeyDown ev m e st =
           (case runCmdKSuggestion ev
                   (jsIndex (memoCmdKSuggestions m) (selectedCmdKSuggestionIndex st)) st of
              Inl err \<Rightarrow> Inl err
            | Inr (shouldCloseCmdK, st1) \<Rightarrow>
                Inr (if shouldCloseCmdK
                     then st1\<lparr>isCmdKMenuOpen := False, selectedCmdKSuggestionIndex := Num 0\<rparr>
                     else st1))"
  using assms by (simp add: handleKeyDown_def paletteKeyDown_def key_defs Let_def)

lemma handleKeyUp_release:
  assumes "isCmdKMenuOpen st" and "hasVimNavigated st"
    and "key e = ''Meta'' \<or> key e = ''Control''"
  shows "handleKeyUp ev m e st =
           (case runCmdKSuggestion ev
                   (jsIndex (memoCmdKSuggestions m) (selectedCmdKSuggestionIndex st)) st of
              Inl err \<Rightarrow> Inl err
            | Inr (shouldCloseCmdK, st1) \<Rightarrow>
                Inr ((if shouldCloseCmdK then st1\<lparr>isCmdKMenuOpen := False\<rparr> else st1)
                       \<lparr>hasVimNavigated := False\<rparr>))"
proof (cases "memoCmdKSuggestions m")
  case Nil
  with assms show ?thesis
    by (simp add: handleKeyUp_def)
next
  case (Cons x xs)
  with assms show ?thesis
    by (simp add: handleKeyUp_def)
qed

subsection \<open>Workspace cycling\<close>

lemma cycleWorkspace_right:
  assumes "vimRight e \<or> key e = ''ArrowRight''"
    and "distinct (memoAvailableWorkspaces m)"
    and "i < length (navigableWorkspaces (memoAvailableWorkspaces m))"
    and "currentWorkspace s = navigableWorkspaces (memoAvailableWorkspaces m) ! i"
  shows "currentWorkspace (cycleWorkspace m e s)
           = navigableWorkspaces (memoAvailableWorkspaces m)
               ! (Suc i mod length (navigableWorkspaces (memoAvailableWorkspaces m)))"
    and "database (cycleWorkspace m e s) = database s"
    and "isCmdKMenuOpen (cycleWorkspace m e s) = isCmdKMenuOpen s"
    and "databaseKey (cycleWorkspace m e s) = databaseKey s"
proof -
  let ?nav = "navigableWorkspaces (memoAvailableWorkspaces m)"
  let ?n = "length ?nav"
  have idx: "indexOf ?nav (currentWorkspace s) = int i"
    using assms(3,4) indexOf_nth [OF distinct_navigableWorkspaces [OF assms(2)], of i] by simp
  have pos: "0 < int ?n"
    using assms(3) by linarith
  have next_idx: "nat ((int i + 1) smod int ?n) = Suc i mod ?n"
    using pos by (simp add: smod_nonneg nat_mod_distrib nat_add_distrib)
  show "currentWorkspace (cycleWorkspace m e s) = ?nav ! (Suc i mod ?n)"
    using assms(1) idx next_idx by (simp add: cycleWorkspace_def Let_def)
  show "database (cycleWorkspace m e s) = database s"
    by (simp add: cycleWorkspace_def Let_def split: option.splits)
  show "isCmdKMenuOpen (cycleWorkspace m e s) = isCmdKMenuOpen s"
    by (simp add: cycleWorkspace_def Let_def split: option.splits)
  show "databaseKey (cycleWorkspace m e s) = databaseKey s"
    by (simp add: cycleWorkspace_def Let_def split: option.splits)
qed

lemma handleKeyDown_right:
  assumes "isCmdKMenuOpen s"
    and "key e = ''ArrowRight'' \<or> ((ctrlKey e \<or> metaKey e) \<and> key e = ''i'')"
  shows "\<exists>s1. handleKeyDown ev m e s = Inr (cycleWorkspace m e s1)
              \<and> database s1 = database s \<and> currentWorkspace s1 = currentWorkspace s
              \<and> isCmdKMenuOpen s1 \<and> databaseKey s1 = databaseKey s"
proof -
  let ?s1 = "if vimUp e \<or> vimDown e \<or> vimLeft e \<or> vimRight e
             then s\<lparr>hasVimNavigated := True\<rparr> else s"
  have keys: "key e \<noteq> ''Escape''" "key e \<noteq> ''Backspace''" "key e \<noteq> ''z''"
    "key e \<noteq> ''ArrowUp''" "key e \<noteq> ''ArrowDown''" "key e \<noteq> ''Enter''"
    "\<not> vimUp e" "\<not> vimDown e"
    using assms(2) by (auto simp: vimUp_def vimDown_def)
  have "paletteKeyDown ev m e ?s1 = Inr (cycleWorkspace m e ?s1)"
    using keys by (simp add: paletteKeyDown_def Let_def)
  then have "handleKeyDown ev m e s = Inr (cycleWorkspace m e ?s1)"
    using assms(1) keys(1) by (simp add: handleKeyDown_def)
  moreover have "database ?s1 = database s" "currentWorkspace ?s1 = currentWorkspace s"
    "isCmdKMenuOpen ?s1" "databaseKey ?s1 = databaseKey s"
    using assms(1) by simp_all
  ultimately show ?thesis by blast
qed

lemma collectWorkspaces_mem:
  "w \<in> set (collectWorkspaces ns acc) \<Longrightarrow> w \<in> set acc \<or> (\<exists>n \<in> set ns. workspace n = Some w)"
proof (induction ns arbitrary: acc)
  case Nil
  then show ?case by simp
next
  case (Cons a ns)
  show ?case
  proof (cases "workspace a")
    case None
    with Cons show ?thesis by auto
  next
    case (Some x)
    show ?thesis
    proof (cases "x = [] \<or> x \<in> set acc")
      case True
      with Some Cons show ?thesis by auto
    next
      case False
      with Some Cons.prems have "w \<in> set (collectWorkspaces ns (acc @ [x]))"
        by simp
      from Cons.IH [OF this] Some show ?thesis by auto
    qed
  qed
qed

lemma computeAvailableWorkspaces_has_note:
  "w \<in> set (computeAvailableWorkspaces notes) \<Longrightarrow> \<exists>n \<in> set notes. workspace n = Some w"
  using collectWorkspaces_mem [of w "sortNotes notes" "[]"]
  by (simp add: computeAvailableWorkspaces_def set_sortNotes)

lemma workspaceNotes_of_navigable:
  assumes "database s \<noteq> []" and "currentWorkspace s \<in> set (navigableWorkspaces aw)"
    and "\<forall>w \<in> set aw. \<exists>n \<in> set (database s). workspace n = Some w"
  shows "workspaceNotes s \<noteq> []"
proof (cases "currentWorkspace s")
  case None
  with assms(1) show ?thesis
    by (simp add: workspaceNotes_def)
next
  case (Some w)
  with assms(2) have "w \<in> set aw"
    by (auto simp: navigableWorkspaces_def)
  with assms(3) obtain n where "n \<in> set (database s)" "workspace n = Some w"
    by blast
  with Some show ?thesis
    by (auto simp: workspaceNotes_def filter_empty_conv strictEq_iff)
qed

lemma currentNoteEffect_total:
  assumes "workspaceNotes s \<noteq> []"
  shows "\<exists>s'. currentNoteEffect s = Inr s'"
proof -
  have "renderedWorkspaceNotes s \<noteq> []"
    using assms set_renderedWorkspaceNotes [of s] by (metis set_empty)
  then show ?thesis
    by (cases "renderedWorkspaceNotes s")
       (auto simp: currentNoteEffect_def Let_def split: option.splits)
qed

lemma successor_fixed:
  assumes "i < n" and "Suc i mod n = i"
  shows "i = 0"
proof (cases "Suc i < n")
  case True
  with assms(2) show ?thesis by simp
next
  case False
  with assms(1) have "Suc i = n" by simp
  with assms(2) show ?thesis by simp
qed

text \<open>
  If every workspace of the memoised list is the workspace of a note of the store, the
  filter steps through \<open>navigableWorkspaces\<close>, one position for each press and its render,
  and the memoised list stays the same.
\<close>

lemma repeatKeyDownRendered_right:
  assumes "key e = ''ArrowRight'' \<or> ((ctrlKey e \<or> metaKey e) \<and> key e = ''i'')"
  shows "isCmdKMenuOpen st \<Longrightarrow> database st \<noteq> []
      \<Longrightarrow> memoKey m = databaseKey st \<Longrightarrow> memoFilter m = currentWorkspace st
      \<Longrightarrow> distinct (memoAvailableWorkspaces m)
      \<Longrightarrow> \<forall>w \<in> set (memoAvailableWorkspaces m). \<exists>n \<in> set (database st). workspace n = Some w
      \<Longrightarrow> i < length (navigableWorkspaces (memoAvailableWorkspaces m))
      \<Longrightarrow> currentWorkspace st = navigableWorkspaces (memoAvailableWorkspaces m) ! i
      \<Longrightarrow> \<exists>m' st'. repeatKeyDownRendered ev e k (m, st) = Inr (m', st')
              \<and> currentWorkspace st'
                  = navigableWorkspaces (memoAvailableWorkspaces m)
                      ! ((i + k) mod length (navigableWorkspaces (memoAvailableWorkspaces m)))
              \<and> memoAvailableWorkspaces m' = memoAvailableWorkspaces m"
proof (induction k arbitrary: m st i)
  case 0
  then show ?case by simp
next
  case (Suc k)
  let ?aw = "memoAvailableWorkspaces m"
  let ?nav = "navigableWorkspaces ?aw"
  let ?n = "length ?nav"
  let ?j = "Suc i mod ?n"
  from handleKeyDown_right [OF Suc.prems(1) assms, of ev m] obtain s1 where
    s1: "handleKeyDown ev m e st = Inr (cycleWorkspace m e s1)" "database s1 = database st"
      "currentWorkspace s1 = currentWorkspace st" "isCmdKMenuOpen s1"
      "databaseKey s1 = databaseKey st"
    by blast
  have right: "vimRight e \<or> key e = ''ArrowRight''"
    using assms by (auto simp: vimRight_def)
  let ?s2 = "cycleWorkspace m e s1"
  have c: "currentWorkspace ?s2 = ?nav ! ?j" "database ?s2 = database st"
      "isCmdKMenuOpen ?s2" "databaseKey ?s2 = databaseKey st"
    using cycleWorkspace_right [OF right Suc.prems(5), of i s1] Suc.prems(7,8) s1 by simp_all
  have "0 < ?n"
    using Suc.prems(7) by linarith
  then have lt: "?j < ?n"
    by (rule mod_less_divisor)
  have arith: "(?j + k) mod ?n = (i + Suc k) mod ?n"
    by (simp add: mod_add_left_eq)
  show ?case
  proof (cases "?s2 = st")
    case True
    then have "currentWorkspace st = ?nav ! ?j"
      using c(1) by simp
    from Suc.IH [OF Suc.prems(1-6) lt this] obtain m' st' where
      "repeatKeyDownRendered ev e k (m, st) = Inr (m', st')"
      "currentWorkspace st' = ?nav ! ((?j + k) mod ?n)"
      "memoAvailableWorkspaces m' = ?aw"
      by blast
    with s1(1) True arith show ?thesis
      by simp
  next
    case False
    have recomputed: "useWorkspaceNotes (Some m) ?s2 = workspaceNotes ?s2"
    proof (cases "currentWorkspace ?s2 = currentWorkspace st")
      case True
      then have "?nav ! ?j = ?nav ! i"
        using c(1) Suc.prems(8) by simp
      then have "?j = i"
        using distinct_navigableWorkspaces [OF Suc.prems(5)] lt Suc.prems(7)
        by (simp add: nth_eq_iff_index_eq)
      then have "i = 0"
        using successor_fixed [OF Suc.prems(7)] by simp
      then have "currentWorkspace ?s2 = None"
        using True Suc.prems(8) by (simp add: navigableWorkspaces_def)
      then show ?thesis
        by (intro useWorkspaceNotes_new) simp
    next
      case False
      then show ?thesis
        using Suc.prems(4) by (intro useWorkspaceNotes_new) simp
    qed
    have "currentWorkspace ?s2 \<in> set ?nav"
      unfolding c(1) using lt by (rule nth_mem)
    moreover have "database ?s2 \<noteq> []"
      using c(2) Suc.prems(2) by simp
    ultimately have "workspaceNotes ?s2 \<noteq> []"
      using Suc.prems(6) c(2) by (intro workspaceNotes_of_navigable [of _ ?aw]) simp_all
    then obtain s3 where s3: "currentNoteEffect ?s2 = Inr s3"
      using currentNoteEffect_total by blast
    with render_state [OF recomputed, of ev] obtain m1 where
      r: "render ev (Some m) ?s2 = Inr (m1, s3)"
      by (cases "render ev (Some m) ?s2") auto
    have aw1: "memoAvailableWorkspaces m1 = ?aw"
      using render_memos(3) [OF r] c(4) Suc.prems(3) by (simp add: useAvailableWorkspaces_kept)
    have set3: "set (database s3) = set (database st)"
      using effect_frame(5) [OF s3] c(2) by (auto simp: set_sortNotes)
    have p: "isCmdKMenuOpen s3" "database s3 \<noteq> []" "memoKey m1 = databaseKey s3"
      "memoFilter m1 = currentWorkspace s3" "distinct (memoAvailableWorkspaces m1)"
      "\<forall>w \<in> set (memoAvailableWorkspaces m1). \<exists>n \<in> set (database s3). workspace n = Some w"
      "?j < length (navigableWorkspaces (memoAvailableWorkspaces m1))"
      "currentWorkspace s3 = navigableWorkspaces (memoAvailableWorkspaces m1) ! ?j"
      using effect_frame(2,3) [OF s3] c(1,3) set3 Suc.prems(2,5,6) render_memos(1,2) [OF r] lt
      unfolding aw1 by (auto simp: set_empty [symmetric] simp del: set_empty)
    from Suc.IH [OF p] obtain m' st' where
      "repeatKeyDownRendered ev e k (m1, s3) = Inr (m', st')"
      "currentWorkspace st' = ?nav ! ((?j + k) mod ?n)"
      "memoAvailableWorkspaces m' = ?aw"
      unfolding aw1 by blast
    with s1(1) False r arith show ?thesis
      by simp
  qed
qed

subsection \<open>The suggestion list\<close>

lemma createWorkspace_offered:
  assumes "q \<noteq> []"
  shows "(case find (\<lambda>w. w = q) ws of
            Some w \<Rightarrow> if w \<noteq> [] then [] else [createWorkspaceSuggestion q]
          | None \<Rightarrow> [createWorkspaceSuggestion q])
         = (if q \<notin> set ws then [createWorkspaceSuggestion q] else [])"
proof (cases "find (\<lambda>w. w = q) ws")
  case None
  then have "q \<notin> set ws"
    by (simp add: find_None_iff)
  with None show ?thesis
    by simp
next
  case (Some w)
  then have "w = q" and "q \<in> set ws"
    by (auto simp: find_Some_iff)
  with Some assms show ?thesis
    by simp
qed

lemma rename_in_actions:
  "trimmedCmdKQuery st \<noteq> [] \<Longrightarrow>
   renameWorkspaceSuggestion (trimmedCmdKQuery st) \<in> set (cmdKActions ev aw st)"
  by (simp add: cmdKActions_def Let_def)

subsection \<open>The examples, evaluated\<close>

lemma suggestions_query_x:
  "cmdKSuggestions exampleEnv [noteA, noteB] [js ''w''] (baseState\<lparr>cmdKSearchQuery := js ''x''\<rparr>)
     = [NoteSuggestion noteB, NoteSuggestion noteA, createNewNoteSuggestion (js ''x''),
        createWorkspaceSuggestion (js ''x''), renameWorkspaceSuggestion (js ''x'')]"
  by (simp add: suggestion_defs example_defs)

lemma suggestions_query_space:
  "cmdKSuggestions exampleEnv [noteA, noteB] [js ''w''] (baseState\<lparr>cmdKSearchQuery := js ''  ''\<rparr>)
     = [unlinkSuggestion (js ''w'')]"
  by (simp add: suggestion_defs example_defs)

lemma suggestions_no_match:
  "cmdKSuggestions exampleEnv [noteB, noteA] [js ''w''] blankQueryState = []"
  by (simp add: suggestion_defs example_defs)

lemma suggestions_sorted:
  "cmdKSuggestions exampleEnv [noteB, noteA] [js ''w''] sortedState
     = [NoteSuggestion noteB, NoteSuggestion noteA, unlinkSuggestion (js ''w'')]"
  by (simp add: suggestion_defs example_defs)

lemma suggestions_tagged:
  "cmdKSuggestions exampleEnv [noteC, noteA] [js ''w''] taggedState
     = [NoteSuggestion noteC, NoteSuggestion noteA, unlinkSuggestion (js ''w'')]"
  by (simp add: suggestion_defs example_defs)

lemma suggestions_untagged:
  "cmdKSuggestions exampleEnv [noteC, noteA\<lparr>workspace := None\<rparr>] [js ''w''] untaggedState
     = [NoteSuggestion noteC, NoteSuggestion (noteA\<lparr>workspace := None\<rparr>)]"
  by (simp add: suggestion_defs example_defs)

lemma suggestions_stamped:
  "cmdKSuggestions exampleEnv [noteA\<lparr>updatedAt := 100\<rparr>, noteC] [js ''w''] stampedState
     = [NoteSuggestion (noteA\<lparr>updatedAt := 100\<rparr>), NoteSuggestion noteC,
        unlinkSuggestion (js ''w'')]"
  by (simp add: suggestion_defs example_defs)

lemma suggestions_twoWorkspaces:
  "cmdKSuggestions exampleEnv [noteE, noteA] [js ''v'', js ''w''] twoWorkspacesState
     = [NoteSuggestion noteE, NoteSuggestion noteA, unlinkSuggestion (js ''w'')]"
  by (simp add: suggestion_defs example_defs)

lemma suggestions_reopened:
  "cmdKSuggestions exampleEnv [noteA\<lparr>updatedAt := 100\<rparr>, noteE] [js ''v'', js ''w''] reopenedState
     = [NoteSuggestion (noteA\<lparr>updatedAt := 100\<rparr>), NoteSuggestion noteE,
        unlinkSuggestion (js ''w'')]"
  by (simp add: suggestion_defs example_defs)

text \<open>The renders of the examples.\<close>

lemma render_blankQuery:
  "render exampleEnv None blankQueryState = Inr (blankQueryMemos, blankQueryState)"
proof -
  have "useWorkspaceNotes None blankQueryState = [noteB, noteA]"
    "useAvailableWorkspaces None blankQueryState = [js ''w'']"
    by (simp_all add: useWorkspaceNotes_def useAvailableWorkspaces_def workspaceNotes_def
        computeAvailableWorkspaces_def sortNotes_def example_defs)
  moreover have "cmdKSearchQuery blankQueryState \<noteq> []" "currentNoteId blankQueryState = js ''b''"
    "blankQueryState\<lparr>textValue := content noteB\<rparr> = blankQueryState"
    "databaseKey blankQueryState = 0" "currentWorkspace blankQueryState = None"
    by (simp_all add: example_defs)
  moreover have "find (\<lambda>n. note_id n = js ''b'') [noteB, noteA] = Some noteB"
    by (simp add: example_defs)
  ultimately show ?thesis
    by (simp add: render_def settled_def suggestions_no_match blankQueryMemos_def)
qed

lemma render_found:
  assumes "useWorkspaceNotes prev st = wn" and "useAvailableWorkspaces prev st = aw"
    and "notes = (if cmdKSearchQuery st = [] then sortNotes wn else wn)"
    and "find (\<lambda>n. note_id n = currentNoteId st) notes = Some n"
    and "st' = (if cmdKSearchQuery st = [] \<and> currentWorkspace st = None
                then st\<lparr>database := notes\<rparr> else st)\<lparr>textValue := content n\<rparr>"
  shows "render ev prev st =
           Inr (\<lparr>memoKey = databaseKey st, memoFilter = currentWorkspace st,
                  memoWorkspaceNotes = notes, memoAvailableWorkspaces = aw,
                  memoCmdKSuggestions = cmdKSuggestions ev notes aw st'\<rparr>, st')"
  using assms by (simp add: render_def settled_def Let_def)

lemma render_sorted: "render exampleEnv None sortedState = Inr (sortedMemos, sortedState)"
proof -
  have "render exampleEnv None sortedState =
          Inr (\<lparr>memoKey = databaseKey sortedState, memoFilter = currentWorkspace sortedState,
                 memoWorkspaceNotes = [noteB, noteA], memoAvailableWorkspaces = [js ''w''],
                 memoCmdKSuggestions = cmdKSuggestions exampleEnv [noteB, noteA] [js ''w''] sortedState\<rparr>,
               sortedState)"
    by (rule render_found [where wn = "[noteB, noteA]" and n = noteA])
       (simp_all add: useWorkspaceNotes_def useAvailableWorkspaces_def workspaceNotes_def
          computeAvailableWorkspaces_def sortNotes_def example_defs)
  moreover have "databaseKey sortedState = 0" "currentWorkspace sortedState = None"
    by (simp_all add: example_defs)
  ultimately show ?thesis
    by (simp add: suggestions_sorted sortedMemos_def)
qed

lemma render_unlinkState: "render exampleEnv None unlinkState = Inr (sortedMemos, unlinkState)"
proof -
  have "render exampleEnv None unlinkState =
          Inr (\<lparr>memoKey = databaseKey unlinkState, memoFilter = currentWorkspace unlinkState,
                 memoWorkspaceNotes = [noteB, noteA], memoAvailableWorkspaces = [js ''w''],
                 memoCmdKSuggestions = cmdKSuggestions exampleEnv [noteB, noteA] [js ''w''] unlinkState\<rparr>,
               unlinkState)"
    by (rule render_found [where wn = "[noteB, noteA]" and n = noteA])
       (simp_all add: useWorkspaceNotes_def useAvailableWorkspaces_def workspaceNotes_def
          computeAvailableWorkspaces_def sortNotes_def example_defs)
  moreover have "cmdKSuggestions exampleEnv [noteB, noteA] [js ''w''] unlinkState
      = cmdKSuggestions exampleEnv [noteB, noteA] [js ''w''] sortedState"
    by (simp add: unlinkState_def)
  moreover have "databaseKey unlinkState = 0" "currentWorkspace unlinkState = None"
    by (simp_all add: example_defs)
  ultimately show ?thesis
    by (simp add: suggestions_sorted sortedMemos_def)
qed

lemma render_chordState: "render exampleEnv None chordState = Inr (sortedMemos, chordState)"
proof -
  have "render exampleEnv None chordState =
          Inr (\<lparr>memoKey = databaseKey chordState, memoFilter = currentWorkspace chordState,
                 memoWorkspaceNotes = [noteB, noteA], memoAvailableWorkspaces = [js ''w''],
                 memoCmdKSuggestions = cmdKSuggestions exampleEnv [noteB, noteA] [js ''w''] chordState\<rparr>,
               chordState)"
    by (rule render_found [where wn = "[noteB, noteA]" and n = noteA])
       (simp_all add: useWorkspaceNotes_def useAvailableWorkspaces_def workspaceNotes_def
          computeAvailableWorkspaces_def sortNotes_def example_defs)
  moreover have "cmdKSuggestions exampleEnv [noteB, noteA] [js ''w''] chordState
      = cmdKSuggestions exampleEnv [noteB, noteA] [js ''w''] sortedState"
    by (simp add: chordState_def)
  moreover have "databaseKey chordState = 0" "currentWorkspace chordState = None"
    by (simp_all add: example_defs)
  ultimately show ?thesis
    by (simp add: suggestions_sorted sortedMemos_def)
qed

lemma render_tagged: "render exampleEnv None taggedState = Inr (taggedMemos, taggedState)"
proof -
  have "render exampleEnv None taggedState =
          Inr (\<lparr>memoKey = databaseKey taggedState, memoFilter = currentWorkspace taggedState,
                 memoWorkspaceNotes = [noteC, noteA], memoAvailableWorkspaces = [js ''w''],
                 memoCmdKSuggestions = cmdKSuggestions exampleEnv [noteC, noteA] [js ''w''] taggedState\<rparr>,
               taggedState)"
    by (rule render_found [where wn = "[noteC, noteA]" and n = noteA])
       (simp_all add: useWorkspaceNotes_def useAvailableWorkspaces_def workspaceNotes_def
          computeAvailableWorkspaces_def sortNotes_def example_defs)
  moreover have "databaseKey taggedState = 0" "currentWorkspace taggedState = Some (js ''w'')"
    by (simp_all add: example_defs)
  ultimately show ?thesis
    by (simp add: suggestions_tagged taggedMemos_def)
qed

text \<open>
  After unlink under a filter the filter is \<open>null\<close>, a new value: the render computes
  \<open>workspaceNotes\<close> anew and keeps \<open>availableWorkspaces\<close>, since the array is the same.
\<close>

lemma render_untagged:
  "render exampleEnv (Some taggedMemos) untaggedState = Inr (untaggedMemos, untaggedState)"
proof -
  have "render exampleEnv (Some taggedMemos) untaggedState =
          Inr (\<lparr>memoKey = databaseKey untaggedState, memoFilter = currentWorkspace untaggedState,
                 memoWorkspaceNotes = [noteC, noteA\<lparr>workspace := None\<rparr>],
                 memoAvailableWorkspaces = [js ''w''],
                 memoCmdKSuggestions = cmdKSuggestions exampleEnv
                     [noteC, noteA\<lparr>workspace := None\<rparr>] [js ''w''] untaggedState\<rparr>,
               untaggedState)"
    by (rule render_found [where wn = "[noteC, noteA\<lparr>workspace := None\<rparr>]"
          and n = "noteA\<lparr>workspace := None\<rparr>"])
       (simp_all add: useWorkspaceNotes_def useAvailableWorkspaces_def workspaceNotes_def
          taggedMemos_def sortNotes_def example_defs)
  moreover have "databaseKey untaggedState = 0" "currentWorkspace untaggedState = None"
    by (simp_all add: example_defs)
  ultimately show ?thesis
    by (simp add: suggestions_untagged untaggedMemos_def)
qed

text \<open>
  After \<open>openNote\<close> under a filter neither the array nor the filter is new: the render
  keeps the array \<open>workspaceNotes\<close>, finds the new time in its note and sorts it.
\<close>

lemma render_stamped:
  "openNote (js ''a'') 100 taggedState = stampedState
   \<and> render exampleEnv (Some taggedMemos) stampedState = Inr (stampedMemos, stampedState)"
proof -
  have "render exampleEnv (Some taggedMemos) stampedState =
          Inr (\<lparr>memoKey = databaseKey stampedState, memoFilter = currentWorkspace stampedState,
                 memoWorkspaceNotes = [noteA\<lparr>updatedAt := 100\<rparr>, noteC],
                 memoAvailableWorkspaces = [js ''w''],
                 memoCmdKSuggestions = cmdKSuggestions exampleEnv
                     [noteA\<lparr>updatedAt := 100\<rparr>, noteC] [js ''w''] stampedState\<rparr>,
               stampedState)"
    by (rule render_found [where wn = "[noteC, noteA\<lparr>updatedAt := 100\<rparr>]"
          and n = "noteA\<lparr>updatedAt := 100\<rparr>"])
       (simp_all add: useWorkspaceNotes_def useAvailableWorkspaces_def notesNow_def
          taggedMemos_def sortNotes_def example_defs)
  moreover have "databaseKey stampedState = 0" "currentWorkspace stampedState = Some (js ''w'')"
    by (simp_all add: example_defs)
  moreover have "openNote (js ''a'') 100 taggedState = stampedState"
    by (simp add: openNote_def example_defs)
  ultimately show ?thesis
    by (simp add: suggestions_stamped stampedMemos_def)
qed

text \<open>
  After unlink with no filter the handlers still hold \<open>sortedMemos\<close>, whose workspace
  list names \<open>w\<close>; the filter \<open>w\<close> then holds no note.
\<close>

lemma render_emptyFilter:
  "render exampleEnv (Some sortedMemos) emptyFilterState = Inl TypeError"
proof -
  have "useWorkspaceNotes (Some sortedMemos) emptyFilterState = []"
    by (simp add: useWorkspaceNotes_def workspaceNotes_def sortedMemos_def example_defs)
  moreover have "cmdKSearchQuery emptyFilterState = []"
    by (simp add: example_defs)
  ultimately show ?thesis
    by (simp add: render_def sortNotes_def)
qed

lemma render_twoWorkspaces:
  "render exampleEnv None twoWorkspacesState = Inr (twoWorkspacesMemos, twoWorkspacesState)"
proof -
  have "render exampleEnv None twoWorkspacesState =
          Inr (\<lparr>memoKey = databaseKey twoWorkspacesState,
                 memoFilter = currentWorkspace twoWorkspacesState,
                 memoWorkspaceNotes = [noteE, noteA], memoAvailableWorkspaces = [js ''v'', js ''w''],
                 memoCmdKSuggestions = cmdKSuggestions exampleEnv [noteE, noteA]
                     [js ''v'', js ''w''] twoWorkspacesState\<rparr>,
               twoWorkspacesState)"
    by (rule render_found [where wn = "[noteE, noteA]" and n = noteA])
       (simp_all add: useWorkspaceNotes_def useAvailableWorkspaces_def workspaceNotes_def
          computeAvailableWorkspaces_def sortNotes_def example_defs)
  moreover have "databaseKey twoWorkspacesState = 0" "currentWorkspace twoWorkspacesState = None"
    by (simp_all add: example_defs)
  ultimately show ?thesis
    by (simp add: suggestions_twoWorkspaces twoWorkspacesMemos_def)
qed

text \<open>
  \<open>openNote\<close> stores the array it was given, so the render that follows keeps
  \<open>availableWorkspaces\<close>; with no filter \<open>workspaceNotes\<close> is the array \<open>database\<close>, which the
  render sorts.
\<close>

lemma render_reopened:
  "render exampleEnv (Some twoWorkspacesMemos) (openNote (js ''a'') 100 twoWorkspacesState)
     = Inr (reopenedMemos, reopenedState)"
proof -
  let ?s = "openNote (js ''a'') 100 twoWorkspacesState"
  have s: "?s = twoWorkspacesState\<lparr>database := [noteE, noteA\<lparr>updatedAt := 100\<rparr>]\<rparr>"
    by (simp add: openNote_def example_defs)
  have "render exampleEnv (Some twoWorkspacesMemos) ?s =
          Inr (\<lparr>memoKey = databaseKey ?s, memoFilter = currentWorkspace ?s,
                 memoWorkspaceNotes = [noteA\<lparr>updatedAt := 100\<rparr>, noteE],
                 memoAvailableWorkspaces = [js ''v'', js ''w''],
                 memoCmdKSuggestions = cmdKSuggestions exampleEnv
                     [noteA\<lparr>updatedAt := 100\<rparr>, noteE] [js ''v'', js ''w''] reopenedState\<rparr>,
               reopenedState)"
    unfolding s
    by (rule render_found [where wn = "[noteE, noteA\<lparr>updatedAt := 100\<rparr>]"
          and n = "noteA\<lparr>updatedAt := 100\<rparr>"])
       (simp_all add: useWorkspaceNotes_def useAvailableWorkspaces_def workspaceNotes_def
          twoWorkspacesMemos_def sortNotes_def example_defs)
  moreover have "databaseKey ?s = 0" "currentWorkspace ?s = None"
    by (simp_all add: openNote_def example_defs)
  ultimately show ?thesis
    by (simp add: suggestions_reopened reopenedMemos_def)
qed



section \<open>The claims\<close>

subsection \<open>C1: order of the suggestion list\<close>

text \<open>
  C1 reads: for every store state and every non-empty query, the suggestion list is the
  fuzzy-matched notes in match-rank order, not re-sorted by recency, followed by
  create-note, move-to-workspace if present, create-workspace if present,
  rename-workspace, and unlink if present.

  The source calls \<open>sortNotes(notes)\<close> on the matches before it builds the list, and it
  offers the first four actions only when the trimmed query is not empty. In the
  example the two memoised values are those that their callbacks give on the state;
  the matches are \<open>noteA, noteB\<close> in match-rank order and the list starts with
  \<open>noteB, noteA\<close>; for a query of two spaces the list has neither create-note nor
  rename-workspace.
\<close>

theorem cmdKSuggestions_match_rank_counterexample:
  "cmdKSearchQuery (baseState\<lparr>cmdKSearchQuery := js ''x''\<rparr>) \<noteq> []
   \<and> workspaceNotes (baseState\<lparr>cmdKSearchQuery := js ''x''\<rparr>) = [noteA, noteB]
   \<and> computeAvailableWorkspaces (database (baseState\<lparr>cmdKSearchQuery := js ''x''\<rparr>)) = [js ''w'']
   \<and> notesFuse exampleEnv [noteA, noteB]
        (cmdKSearchQuery (baseState\<lparr>cmdKSearchQuery := js ''x''\<rparr>)) = [noteA, noteB]
   \<and> cmdKSuggestions exampleEnv [noteA, noteB] [js ''w''] (baseState\<lparr>cmdKSearchQuery := js ''x''\<rparr>)
        = [NoteSuggestion noteB, NoteSuggestion noteA, createNewNoteSuggestion (js ''x''),
           createWorkspaceSuggestion (js ''x''), renameWorkspaceSuggestion (js ''x'')]
   \<and> cmdKSearchQuery (baseState\<lparr>cmdKSearchQuery := js ''  ''\<rparr>) \<noteq> []
   \<and> cmdKSuggestions exampleEnv [noteA, noteB] [js ''w''] (baseState\<lparr>cmdKSearchQuery := js ''  ''\<rparr>)
        = [unlinkSuggestion (js ''w'')]"
proof -
  have "notesFuse exampleEnv [noteA, noteB]
          (cmdKSearchQuery (baseState\<lparr>cmdKSearchQuery := js ''x''\<rparr>)) = [noteA, noteB]"
    and "workspaceNotes (baseState\<lparr>cmdKSearchQuery := js ''x''\<rparr>) = [noteA, noteB]"
    and "computeAvailableWorkspaces (database (baseState\<lparr>cmdKSearchQuery := js ''x''\<rparr>))
           = [js ''w'']"
    by (simp_all add: workspaceNotes_def computeAvailableWorkspaces_def sortNotes_def example_defs)
  moreover have "cmdKSearchQuery (baseState\<lparr>cmdKSearchQuery := js ''x''\<rparr>) \<noteq> []"
    and "cmdKSearchQuery (baseState\<lparr>cmdKSearchQuery := js ''  ''\<rparr>) \<noteq> []"
    by (simp_all add: js_def)
  ultimately show ?thesis
    using suggestions_query_x suggestions_query_space by simp
qed

text \<open>
  C1, amended: for every store state and every non-empty query, the suggestion list is
  the fuzzy matches among the notes of the array \<open>workspaceNotes\<close>, sorted by \<open>updatedAt\<close>,
  latest first, notes of equal time in match-rank order; followed, when the trimmed
  query is not empty, by create-note, then move-to-workspace if a workspace of the list
  \<open>availableWorkspaces\<close> matches, then create-workspace if that list does not hold the
  trimmed query, then rename-workspace; followed by unlink if the active
  note has a workspace and the trimmed query is empty or a part of ``unlink note''.

  \<open>wn\<close> and \<open>aw\<close> are the array \<open>workspaceNotes\<close> and the list \<open>availableWorkspaces\<close> as the
  render holds them, whether computed in this render or kept from an earlier one; the
  statement holds for all their values.
\<close>

theorem cmdKSuggestions_recency_then_actions:
  assumes "cmdKSearchQuery st \<noteq> []"
  shows "cmdKSuggestions ev wn aw st =
           map NoteSuggestion (sortNotes (notesFuse ev wn (cmdKSearchQuery st)))
         @ (if trimmedCmdKQuery st \<noteq> []
            then [createNewNoteSuggestion (trimmedCmdKQuery st)] else [])
         @ (if trimmedCmdKQuery st \<noteq> []
               \<and> workspaceFuse ev aw (cmdKSearchQuery st) \<noteq> []
            then [moveNoteSuggestion (hd (workspaceFuse ev aw (cmdKSearchQuery st)))]
            else [])
         @ (if trimmedCmdKQuery st \<noteq> [] \<and> trimmedCmdKQuery st \<notin> set aw
            then [createWorkspaceSuggestion (trimmedCmdKQuery st)] else [])
         @ (if trimmedCmdKQuery st \<noteq> []
            then [renameWorkspaceSuggestion (trimmedCmdKQuery st)] else [])
         @ (case currentNoteOf st of
              None \<Rightarrow> []
            | Some currentNote \<Rightarrow>
               (case workspace currentNote of
                  None \<Rightarrow> []
                | Some w \<Rightarrow>
                    if w \<noteq> [] \<and> (trimmedCmdKQuery st = []
                                  \<or> includes_str unlinkTitle (trimmedCmdKQuery st))
                    then [unlinkSuggestion w] else []))
       \<and> mset (sortNotes (notesFuse ev wn (cmdKSearchQuery st)))
           = mset (notesFuse ev wn (cmdKSearchQuery st))
       \<and> sorted_wrt (\<lambda>a b. updatedAt b \<le> updatedAt a)
           (sortNotes (notesFuse ev wn (cmdKSearchQuery st)))
       \<and> (\<forall>t. filter (\<lambda>n. updatedAt n = t) (sortNotes (notesFuse ev wn (cmdKSearchQuery st)))
               = filter (\<lambda>n. updatedAt n = t) (notesFuse ev wn (cmdKSearchQuery st)))"
proof (intro conjI allI)
  show "cmdKSuggestions ev wn aw st =
           map NoteSuggestion (sortNotes (notesFuse ev wn (cmdKSearchQuery st)))
         @ (if trimmedCmdKQuery st \<noteq> []
            then [createNewNoteSuggestion (trimmedCmdKQuery st)] else [])
         @ (if trimmedCmdKQuery st \<noteq> []
               \<and> workspaceFuse ev aw (cmdKSearchQuery st) \<noteq> []
            then [moveNoteSuggestion (hd (workspaceFuse ev aw (cmdKSearchQuery st)))]
            else [])
         @ (if trimmedCmdKQuery st \<noteq> [] \<and> trimmedCmdKQuery st \<notin> set aw
            then [createWorkspaceSuggestion (trimmedCmdKQuery st)] else [])
         @ (if trimmedCmdKQuery st \<noteq> []
            then [renameWorkspaceSuggestion (trimmedCmdKQuery st)] else [])
         @ (case currentNoteOf st of
              None \<Rightarrow> []
            | Some currentNote \<Rightarrow>
               (case workspace currentNote of
                  None \<Rightarrow> []
                | Some w \<Rightarrow>
                    if w \<noteq> [] \<and> (trimmedCmdKQuery st = []
                                  \<or> includes_str unlinkTitle (trimmedCmdKQuery st))
                    then [unlinkSuggestion w] else []))"
    using assms
    by (cases "workspaceFuse ev aw (cmdKSearchQuery st)")
       (simp_all add: cmdKSuggestions_def cmdKNotes_def cmdKActions_def Let_def
          createWorkspace_offered)
qed (simp_all add: mset_sortNotes sortNotes_descending sortNotes_stable)

text \<open>
  Two instances. In the first the two memoised values are those of the example above.
  In the second the list \<open>availableWorkspaces\<close> still names \<open>w\<close> and \<open>v\<close> and the query is
  \<open>v\<close>: move-to-workspace \<open>v\<close> is offered and create-workspace is not, whatever the notes of
  the store carry.
\<close>

theorem cmdKSuggestions_recency_then_actions_witness:
  "cmdKSearchQuery (baseState\<lparr>cmdKSearchQuery := js ''x''\<rparr>) \<noteq> []
   \<and> cmdKSuggestions exampleEnv [noteA, noteB] [js ''w''] (baseState\<lparr>cmdKSearchQuery := js ''x''\<rparr>)
       = map NoteSuggestion (sortNotes [noteA, noteB])
         @ [createNewNoteSuggestion (js ''x''), createWorkspaceSuggestion (js ''x''),
            renameWorkspaceSuggestion (js ''x'')]
   \<and> sortNotes [noteA, noteB] = [noteB, noteA]
   \<and> cmdKSearchQuery (baseState\<lparr>cmdKSearchQuery := js ''v''\<rparr>) \<noteq> []
   \<and> cmdKSuggestions exampleEnv [noteA, noteB] [js ''w'', js ''v'']
         (baseState\<lparr>cmdKSearchQuery := js ''v''\<rparr>)
       = [createNewNoteSuggestion (js ''v''), moveNoteSuggestion (js ''v''),
          renameWorkspaceSuggestion (js ''v'')]"
proof -
  let ?s = "baseState\<lparr>cmdKSearchQuery := js ''x''\<rparr>"
  let ?s' = "baseState\<lparr>cmdKSearchQuery := js ''v''\<rparr>"
  have h: "cmdKSearchQuery ?s \<noteq> []" and h': "cmdKSearchQuery ?s' \<noteq> []"
    by (simp_all add: js_def)
  have "map NoteSuggestion (sortNotes (notesFuse exampleEnv [noteA, noteB] (cmdKSearchQuery ?s)))
         @ (if trimmedCmdKQuery ?s \<noteq> []
            then [createNewNoteSuggestion (trimmedCmdKQuery ?s)] else [])
         @ (if trimmedCmdKQuery ?s \<noteq> []
               \<and> workspaceFuse exampleEnv [js ''w''] (cmdKSearchQuery ?s) \<noteq> []
            then [moveNoteSuggestion (hd (workspaceFuse exampleEnv [js ''w''] (cmdKSearchQuery ?s)))]
            else [])
         @ (if trimmedCmdKQuery ?s \<noteq> [] \<and> trimmedCmdKQuery ?s \<notin> set [js ''w'']
            then [createWorkspaceSuggestion (trimmedCmdKQuery ?s)] else [])
         @ (if trimmedCmdKQuery ?s \<noteq> []
            then [renameWorkspaceSuggestion (trimmedCmdKQuery ?s)] else [])
         @ (case currentNoteOf ?s of
              None \<Rightarrow> []
            | Some currentNote \<Rightarrow>
               (case workspace currentNote of
                  None \<Rightarrow> []
                | Some w \<Rightarrow>
                    if w \<noteq> [] \<and> (trimmedCmdKQuery ?s = []
                                  \<or> includes_str unlinkTitle (trimmedCmdKQuery ?s))
                    then [unlinkSuggestion w] else []))
        = map NoteSuggestion (sortNotes [noteA, noteB])
         @ [createNewNoteSuggestion (js ''x''), createWorkspaceSuggestion (js ''x''),
            renameWorkspaceSuggestion (js ''x'')]"
    by (simp add: currentNoteOf_def
        trimmedCmdKQuery_def trim_def isWhiteSpace_def unlinkTitle_def sortNotes_def
        example_defs)
  moreover have "sortNotes [noteA, noteB] = [noteB, noteA]"
    by (simp add: sortNotes_def noteA_def noteB_def)
  moreover have "map NoteSuggestion (sortNotes (notesFuse exampleEnv [noteA, noteB] (cmdKSearchQuery ?s')))
         @ (if trimmedCmdKQuery ?s' \<noteq> []
            then [createNewNoteSuggestion (trimmedCmdKQuery ?s')] else [])
         @ (if trimmedCmdKQuery ?s' \<noteq> []
               \<and> workspaceFuse exampleEnv [js ''w'', js ''v''] (cmdKSearchQuery ?s') \<noteq> []
            then [moveNoteSuggestion
                    (hd (workspaceFuse exampleEnv [js ''w'', js ''v''] (cmdKSearchQuery ?s')))]
            else [])
         @ (if trimmedCmdKQuery ?s' \<noteq> [] \<and> trimmedCmdKQuery ?s' \<notin> set [js ''w'', js ''v'']
            then [createWorkspaceSuggestion (trimmedCmdKQuery ?s')] else [])
         @ (if trimmedCmdKQuery ?s' \<noteq> []
            then [renameWorkspaceSuggestion (trimmedCmdKQuery ?s')] else [])
         @ (case currentNoteOf ?s' of
              None \<Rightarrow> []
            | Some currentNote \<Rightarrow>
               (case workspace currentNote of
                  None \<Rightarrow> []
                | Some w \<Rightarrow>
                    if w \<noteq> [] \<and> (trimmedCmdKQuery ?s' = []
                                  \<or> includes_str unlinkTitle (trimmedCmdKQuery ?s'))
                    then [unlinkSuggestion w] else []))
        = [createNewNoteSuggestion (js ''v''), moveNoteSuggestion (js ''v''),
           renameWorkspaceSuggestion (js ''v'')]"
    by (simp add: currentNoteOf_def
        trimmedCmdKQuery_def trim_def isWhiteSpace_def unlinkTitle_def sortNotes_def
        example_defs)
  ultimately show ?thesis
    using cmdKSuggestions_recency_then_actions [OF h, of exampleEnv "[noteA, noteB]" "[js ''w'']"]
      cmdKSuggestions_recency_then_actions [OF h', of exampleEnv "[noteA, noteB]" "[js ''w'', js ''v'']"]
      h h'
    by simp
qed


subsection \<open>C2: index navigation\<close>

text \<open>
  On a list of \<open>n > 0\<close> suggestions, with the index at a position of the list, ArrowDown
  and ArrowUp move the index by one modulo \<open>n\<close>.
\<close>

lemma navigation_wraps:
  assumes "isCmdKMenuOpen st" and "length (memoCmdKSuggestions m) = n" and "0 < n"
    and "selectedCmdKSuggestionIndex st = Num (int i)" and "i < n"
  shows "handleKeyDown ev m (pressed ''ArrowDown'') st
           = Inr (st\<lparr>selectedCmdKSuggestionIndex := Num (int (Suc i mod n))\<rparr>)"
    and "handleKeyDown ev m (pressed ''ArrowUp'') st
           = Inr (st\<lparr>selectedCmdKSuggestionIndex := Num (int ((i + n - 1) mod n))\<rparr>)"
proof -
  have down: "(int i + 1) smod int n = int (Suc i mod n)"
    using assms(3) by (simp add: smod_nonneg zmod_int add.commute)
  have eq: "int i - 1 + int n = int (i + n - 1)"
    using assms(3) by linarith
  have up: "(int i - 1 + int n) smod int n = int ((i + n - 1) mod n)"
  proof -
    have "(int i - 1 + int n) smod int n = int (i + n - 1) smod int n"
      by (simp only: eq)
    also have "\<dots> = int (i + n - 1) mod int n"
      using assms(3) by (intro smod_nonneg) simp_all
    also have "\<dots> = int ((i + n - 1) mod n)"
      by (simp only: zmod_int)
    finally show ?thesis .
  qed
  have n: "jsLength (memoCmdKSuggestions m) = Num (int n)" and "int n \<noteq> 0"
    using assms(2,3) by (simp_all add: jsLength_def)
  then have rem_down: "jsRem (jsAdd (Num (int i)) (Num 1)) (jsLength (memoCmdKSuggestions m))
                         = Num (int (Suc i mod n))"
    and rem_up: "jsRem (jsAdd (jsSub (Num (int i)) (Num 1)) (jsLength (memoCmdKSuggestions m)))
                   (jsLength (memoCmdKSuggestions m)) = Num (int ((i + n - 1) mod n))"
    using down up by simp_all
  show "handleKeyDown ev m (pressed ''ArrowDown'') st
           = Inr (st\<lparr>selectedCmdKSuggestionIndex := Num (int (Suc i mod n))\<rparr>)"
    using assms(1,4) rem_down
    by (simp add: handleKeyDown_def paletteKeyDown_def key_defs Let_def)
  show "handleKeyDown ev m (pressed ''ArrowUp'') st
           = Inr (st\<lparr>selectedCmdKSuggestionIndex := Num (int ((i + n - 1) mod n))\<rparr>)"
    using assms(1,4) rem_up
    by (simp add: handleKeyDown_def paletteKeyDown_def key_defs Let_def)
qed

text \<open>
  C2 reads: an Up/Down navigation event moves \<open>selectedIndex\<close> cyclically modulo the
  suggestion count \<open>n\<close>, and when \<open>n = 0\<close> it leaves \<open>selectedIndex\<close> unchanged.

  The handler computes \<open>(index + 1) % length\<close> and \<open>(index - 1 + length) % length\<close> with no
  test of \<open>length\<close>. In the example the query is two spaces, no note contains it and
  the active note has no workspace, so the list that the render builds is empty: both
  keys store \<open>NaN\<close>.
\<close>

theorem navigation_on_empty_list_stores_NaN:
  "isCmdKMenuOpen blankQueryState
   \<and> render exampleEnv None blankQueryState = Inr (blankQueryMemos, blankQueryState)
   \<and> memoCmdKSuggestions blankQueryMemos = []
   \<and> cmdKSuggestions exampleEnv (workspaceNotes blankQueryState)
        (computeAvailableWorkspaces (database blankQueryState)) blankQueryState = []
   \<and> selectedCmdKSuggestionIndex blankQueryState = Num 0
   \<and> handleKeyDown exampleEnv blankQueryMemos (pressed ''ArrowDown'') blankQueryState
        = Inr (blankQueryState\<lparr>selectedCmdKSuggestionIndex := NaN\<rparr>)
   \<and> handleKeyDown exampleEnv blankQueryMemos (pressed ''ArrowUp'') blankQueryState
        = Inr (blankQueryState\<lparr>selectedCmdKSuggestionIndex := NaN\<rparr>)"
proof -
  have "isCmdKMenuOpen blankQueryState"
    and sel: "selectedCmdKSuggestionIndex blankQueryState = Num 0"
    by (simp_all add: blankQueryState_def sortedState_def baseState_def)
  moreover have empty: "memoCmdKSuggestions blankQueryMemos = []"
    by (simp add: blankQueryMemos_def)
  moreover have "workspaceNotes blankQueryState = [noteB, noteA]"
    "computeAvailableWorkspaces (database blankQueryState) = [js ''w'']"
    by (simp_all add: workspaceNotes_def computeAvailableWorkspaces_def sortNotes_def example_defs)
  moreover have "handleKeyDown exampleEnv blankQueryMemos (pressed ''ArrowDown'') blankQueryState
      = Inr (blankQueryState\<lparr>selectedCmdKSuggestionIndex := NaN\<rparr>)"
    using \<open>isCmdKMenuOpen blankQueryState\<close> sel
    by (simp add: handleKeyDown_def paletteKeyDown_def key_defs jsLength_def empty)
  moreover have "handleKeyDown exampleEnv blankQueryMemos (pressed ''ArrowUp'') blankQueryState
      = Inr (blankQueryState\<lparr>selectedCmdKSuggestionIndex := NaN\<rparr>)"
    using \<open>isCmdKMenuOpen blankQueryState\<close> sel
    by (simp add: handleKeyDown_def paletteKeyDown_def key_defs jsLength_def empty)
  ultimately show ?thesis
    using suggestions_no_match render_blankQuery by simp
qed


subsection \<open>C3: the selected index stays inside the list\<close>

text \<open>
  Opening the palette and editing the query set the index to 0, and so do the closures
  of create-note, create-workspace, rename and move; the closure of unlink leaves the
  index where it is and keeps the palette open.
\<close>

lemma openNewNote_keeps_index:
  "selectedCmdKSuggestionIndex (openNewNote c w i t st) = selectedCmdKSuggestionIndex st"
  by (simp add: openNewNote_def Let_def)

lemma openNote_keeps_index:
  "selectedCmdKSuggestionIndex (openNote i t st) = selectedCmdKSuggestionIndex st"
  by (simp add: openNote_def)

lemma sibling_actions_reset_index:
  assumes "act = CreateNewNote q \<or> act = CreateWorkspace q \<or> act = RenameWorkspace q
           \<or> (act = MoveNote q \<and> currentNoteOf st \<noteq> None)"
    and "runAction ev act st = Inr (shouldCloseCmdK, st')"
  shows "selectedCmdKSuggestionIndex st' = Num 0"
  using assms by (auto simp: openNote_def split: option.splits)

lemma unlink_keeps_index:
  assumes "runAction ev UnlinkNote st = Inr (shouldCloseCmdK, st')"
  shows "selectedCmdKSuggestionIndex st' = selectedCmdKSuggestionIndex st \<and> \<not> shouldCloseCmdK"
  using assms by (auto split: option.splits)

lemma open_and_edit_reset_index:
  "(key e = ''p'' \<or> key e = ''k'') \<and> (metaKey e \<or> ctrlKey e) \<Longrightarrow> \<not> isCmdKMenuOpen st
     \<Longrightarrow> \<exists>st'. handleKeyDown ev m e st = Inr st' \<and> isCmdKMenuOpen st'
              \<and> selectedCmdKSuggestionIndex st' = Num 0 \<and> cmdKSearchQuery st' = []"
  "selectedCmdKSuggestionIndex (searchInputChange v st) = Num 0"
  by (auto simp: handleKeyDown_def closedKeyDown_def searchInputChange_def)

text \<open>
  With no filter, unlink gives every state cell the value it has: no render follows,
  the handlers keep the three suggestions of the render before, and the index 2 is
  still a position of the list they hold. Quick delete finds the unlink entry there
  and returns.
\<close>

lemma unlink_without_filter_keeps_list:
  "handleKeyDown exampleEnv sortedMemos (pressed ''Enter'') unlinkState = Inr staleState
   \<and> staleState\<lparr>database := database unlinkState\<rparr> = unlinkState
   \<and> length (memoCmdKSuggestions sortedMemos) = 3
   \<and> selectedCmdKSuggestionIndex staleState = Num 2
   \<and> handleKeyDown exampleEnv sortedMemos (withCtrl ''Backspace'') staleState = Inr staleState"
proof -
  have st: "isCmdKMenuOpen unlinkState" "selectedCmdKSuggestionIndex unlinkState = Num 2"
    "staleState\<lparr>database := database unlinkState\<rparr> = unlinkState"
    "isCmdKMenuOpen staleState" "selectedCmdKSuggestionIndex staleState = Num 2"
    by (simp_all add: unlinkState_def staleState_def sortedState_def baseState_def)
  have list: "memoCmdKSuggestions sortedMemos
        = [NoteSuggestion noteB, NoteSuggestion noteA, unlinkSuggestion (js ''w'')]"
    "length (memoWorkspaceNotes sortedMemos) = 2"
    by (simp_all add: sortedMemos_def)
  have "runCmdKSuggestion exampleEnv (Some (unlinkSuggestion (js ''w''))) unlinkState
          = Inr (False, staleState)"
    by (simp add: unlinkSuggestion_def currentNoteOf_def sortNotes_def unlinkState_def
        staleState_def sortedState_def baseState_def noteA_def noteB_def js_def)
  then have enter: "handleKeyDown exampleEnv sortedMemos (pressed ''Enter'') unlinkState
      = Inr staleState"
    using st(1,2) by (simp add: handleKeyDown_Enter pressed_def list(1))
  have "handleKeyDown exampleEnv sortedMemos (withCtrl ''Backspace'') staleState = Inr staleState"
    using st(4,5) list
    by (simp add: handleKeyDown_def paletteKeyDown_def key_defs unlinkSuggestion_def)
  with st(3,5) list(1) enter show ?thesis
    by simp
qed

text \<open>
  C3 reads: whenever the suggestion count \<open>n\<close> is positive, \<open>selectedIndex\<close> lies in
  \<open>[0, n)\<close>, and every transition preserves this.

  The closures of create-note, move, create-workspace and rename all call
  \<open>setSelectedCmdKSuggestionIndex(0)\<close>; the closure of unlink does not. In the example
  the filter is \<open>w\<close> and both notes of the store carry it; the render leaves three
  suggestions, and the index is 2, on unlink. Enter runs unlink, which sets the filter
  to \<open>null\<close>, a new value, and keeps the palette open. The render that follows lists
  the same two notes and no unlink entry, so the list has two entries and the index is
  still 2; quick delete then reads \<open>cmdKSuggestions[2].type\<close> and throws.
\<close>

theorem unlink_leaves_index_out_of_range:
  "render exampleEnv None taggedState = Inr (taggedMemos, taggedState)
   \<and> isCmdKMenuOpen taggedState
   \<and> length (memoCmdKSuggestions taggedMemos) = 3
   \<and> selectedCmdKSuggestionIndex taggedState = Num 2
   \<and> handleKeyDown exampleEnv taggedMemos (pressed ''Enter'') taggedState = Inr untaggedState
   \<and> currentWorkspace taggedState = Some (js ''w'')
   \<and> currentWorkspace untaggedState = None
   \<and> render exampleEnv (Some taggedMemos) untaggedState = Inr (untaggedMemos, untaggedState)
   \<and> isCmdKMenuOpen untaggedState
   \<and> length (memoCmdKSuggestions untaggedMemos) = 2
   \<and> selectedCmdKSuggestionIndex untaggedState = Num 2
   \<and> handleKeyDown exampleEnv untaggedMemos (withCtrl ''Backspace'') untaggedState
        = Inl TypeError"
proof -
  have st: "isCmdKMenuOpen taggedState" "selectedCmdKSuggestionIndex taggedState = Num 2"
    "currentWorkspace taggedState = Some (js ''w'')" "currentWorkspace untaggedState = None"
    "isCmdKMenuOpen untaggedState" "selectedCmdKSuggestionIndex untaggedState = Num 2"
    by (simp_all add: taggedState_def untaggedState_def baseState_def)
  have lists: "memoCmdKSuggestions taggedMemos
        = [NoteSuggestion noteC, NoteSuggestion noteA, unlinkSuggestion (js ''w'')]"
    "memoCmdKSuggestions untaggedMemos
        = [NoteSuggestion noteC, NoteSuggestion (noteA\<lparr>workspace := None\<rparr>)]"
    "length (memoWorkspaceNotes untaggedMemos) = 2"
    by (simp_all add: taggedMemos_def untaggedMemos_def)
  have "runCmdKSuggestion exampleEnv (Some (unlinkSuggestion (js ''w''))) taggedState
          = Inr (False, untaggedState)"
    by (simp add: unlinkSuggestion_def currentNoteOf_def sortNotes_def taggedState_def
        untaggedState_def baseState_def noteA_def noteC_def js_def)
  then have enter: "handleKeyDown exampleEnv taggedMemos (pressed ''Enter'') taggedState
      = Inr untaggedState"
    using st(1,2) by (simp add: handleKeyDown_Enter pressed_def lists(1))
  have delete: "handleKeyDown exampleEnv untaggedMemos (withCtrl ''Backspace'') untaggedState
      = Inl TypeError"
    using st(5,6) lists(2,3)
    by (simp add: handleKeyDown_def paletteKeyDown_def key_defs)
  from st lists(1,2) enter delete render_tagged render_untagged show ?thesis
    by simp
qed

subsection \<open>C4: deleting the active note\<close>

text \<open>
  C4 reads: when the deleted note is the active note, \<open>delete(id)\<close> removes the note,
  pushes it on the Deletion Stack, and activates the first remaining note in the
  current workspace filter, or the empty state if no note remains in that filter.

  \<open>deleteNote\<close> activates \<open>updatedDatabase[0]\<close>, the first remaining note of the whole
  store, and the effect moves the activation into the filter only if the filter holds a
  note. In the example the filter is \<open>w\<close> and its only note is deleted: the active id
  becomes that of \<open>noteB\<close>, which is outside the filter, and the effect throws.
\<close>

theorem deleteNote_emptied_filter_counterexample:
  "currentNoteId filteredState = js ''a''
   \<and> workspaceNotes filteredState = [noteA]
   \<and> workspaceNotes (deleteNote (js ''a'') filteredState) = []
   \<and> currentNoteId (deleteNote (js ''a'') filteredState) = js ''b''
   \<and> js ''b'' \<noteq> []
   \<and> currentNoteEffect (deleteNote (js ''a'') filteredState) = Inl TypeError"
  by (simp add: deleteNote_def currentNoteEffect_def renderedWorkspaceNotes_def
      workspaceNotes_def sortNotes_def example_defs)

text \<open>
  \<open>deleteNote\<close> stores a new array, so the render that follows computes \<open>workspaceNotes\<close>
  anew and leaves the state that \<open>currentNoteEffect\<close> gives (lemma \<open>deleteNote_render\<close>).
  Both callers of \<open>deleteNote\<close>, the key and the button, require
  \<open>workspaceNotes.length > 1\<close>. In the example below the first remaining note of the store
  is outside the filter, and the effect activates the first note of \<open>workspaceNotes\<close> as
  the render has sorted it: \<open>noteD\<close>, the latest, not \<open>noteC\<close>, the first in store order.
\<close>

lemma deleteNote_fallback_follows_render:
  "workspaceNotes (deleteNote (js ''a'') fourNotesState) = [noteC, noteD]
   \<and> currentNoteId (deleteNote (js ''a'') fourNotesState) = js ''b''
   \<and> currentNoteEffect (deleteNote (js ''a'') fourNotesState)
       = Inr ((deleteNote (js ''a'') fourNotesState)
                \<lparr>currentNoteId := js ''d'', textValue := js ''x''\<rparr>)"
  by (simp add: deleteNote_def currentNoteEffect_def renderedWorkspaceNotes_def
      workspaceNotes_def sortNotes_def example_defs)

text \<open>
  C4, amended: for every store state with unique ids in which the deleted note is the
  active note and the current workspace filter holds more than one note, \<open>deleteNote\<close>
  removes the note, pushes it on the Deletion Stack and activates the first remaining
  note of the store; after the effect that follows, the active note is a remaining
  note of the current workspace filter: the first remaining note of the store if it is
  in the filter (it is then the first of the filter too), and otherwise the first note
  of the filtered list as the render has ordered it (latest first when the query is
  empty, store order otherwise).
\<close>

theorem deleteNote_active_fallback:
  assumes "distinct (map note_id (database st))"
    and "find (\<lambda>n. note_id n = nid) (database st) = Some d"
    and "currentNoteId st = nid"
    and "length (workspaceNotes st) > 1"
  shows "database (deleteNote nid st) = filter (\<lambda>n. note_id n \<noteq> nid) (database st)
       \<and> d \<notin> set (database (deleteNote nid st))
       \<and> freshlyDeletedNotes (deleteNote nid st) = freshlyDeletedNotes st @ [d]
       \<and> database (deleteNote nid st) \<noteq> []
       \<and> currentNoteId (deleteNote nid st) = note_id (hd (database (deleteNote nid st)))
       \<and> (\<exists>s f. currentNoteEffect (deleteNote nid st) = Inr s
             \<and> currentNoteId s = note_id f
             \<and> f \<in> set (workspaceNotes (deleteNote nid st))
             \<and> f = (if hd (database (deleteNote nid st)) \<in> set (workspaceNotes (deleteNote nid st))
                    then hd (workspaceNotes (deleteNote nid st))
                    else hd (renderedWorkspaceNotes (deleteNote nid st))))"
proof -
  let ?s1 = "deleteNote nid st"
  let ?db = "database ?s1"
  let ?W = "workspaceNotes ?s1"
  let ?R = "renderedWorkspaceNotes ?s1"
  note del = deleteNote_found [OF assms(2)]
  have d_id: "note_id d = nid"
    using assms(2) by (auto simp: find_Some_iff)
  have gone: "d \<notin> set ?db"
    using d_id del(2) by simp
  have W: "?W = filter (\<lambda>n. note_id n \<noteq> nid) (workspaceNotes st)"
    by (rule workspaceNotes_deleteNote [OF assms(2)])
  have "distinct (map note_id (workspaceNotes st))"
    using assms(1) by (auto simp: workspaceNotes_def distinct_map_filter split: option.splits)
  then have "length (filter (\<lambda>n. note_id n = nid) (workspaceNotes st)) \<le> 1"
    by (rule length_filter_key)
  moreover have "length (workspaceNotes st)
      = length (filter (\<lambda>n. note_id n = nid) (workspaceNotes st)) + length ?W"
    unfolding W by (simp add: sum_length_filter_compl)
  ultimately have Wne: "?W \<noteq> []"
    using assms(4) by auto
  have Wsub: "set ?W \<subseteq> set ?db"
    by (rule workspaceNotes_subset)
  with Wne have dbne: "?db \<noteq> []"
    by auto
  then obtain n ns where db: "?db = n # ns"
    by (cases ?db) auto
  have cur: "currentNoteId ?s1 = note_id n"
    using deleteNote_active [OF assms(2,3)] db del(2) by simp
  have dist: "distinct (map note_id ?db)"
    unfolding del(2) using assms(1) by (rule distinct_map_filter)
  have Rset: "set ?R = set ?W"
    by (rule set_renderedWorkspaceNotes)
  have find: "find (\<lambda>m. note_id m = currentNoteId ?s1) ?R = (if n \<in> set ?R then Some n else None)"
    unfolding cur using dist Wsub db Rset
    by (intro find_by_id_distinct [of ?db]) auto
  have effect: "\<exists>s f. currentNoteEffect ?s1 = Inr s \<and> currentNoteId s = note_id f
             \<and> f \<in> set ?W
             \<and> f = (if hd ?db \<in> set ?W then hd ?W else hd ?R)"
  proof (cases "n \<in> set ?W")
    case True
    with find Rset have "find (\<lambda>m. note_id m = currentNoteId ?s1) ?R = Some n"
      by simp
    from currentNoteEffect_found [OF this] obtain s where
      "currentNoteEffect ?s1 = Inr s" "currentNoteId s = note_id n"
      using cur by auto
    moreover have "hd ?W = n"
      using db True by (rule hd_workspaceNotes)
    ultimately show ?thesis
      using True db by auto
  next
    case False
    with find Rset have none: "find (\<lambda>m. note_id m = currentNoteId ?s1) ?R = None"
      by simp
    have Rne: "?R \<noteq> []"
      using Wne Rset by auto
    from currentNoteEffect_fallback [OF none Rne] obtain s where
      "currentNoteEffect ?s1 = Inr s" "currentNoteId s = note_id (hd ?R)"
      by auto
    moreover have "hd ?R \<in> set ?W"
      using Rne Rset hd_in_set by blast
    ultimately show ?thesis
      using False db by auto
  qed
  have first: "currentNoteId ?s1 = note_id (hd ?db)"
    using cur db by simp
  from del(2) gone del(1) dbne first effect show ?thesis
    by blast
qed

theorem deleteNote_active_fallback_witness:
  "distinct (map note_id (database baseState))
   \<and> find (\<lambda>n. note_id n = js ''a'') (database baseState) = Some noteA
   \<and> currentNoteId baseState = js ''a''
   \<and> length (workspaceNotes baseState) > 1
   \<and> database (deleteNote (js ''a'') baseState) = [noteB]
   \<and> freshlyDeletedNotes (deleteNote (js ''a'') baseState) = [noteA]
   \<and> (\<exists>s. currentNoteEffect (deleteNote (js ''a'') baseState) = Inr s
          \<and> currentNoteId s = js ''b'')"
proof -
  have h: "distinct (map note_id (database baseState))"
    "find (\<lambda>n. note_id n = js ''a'') (database baseState) = Some noteA"
    "currentNoteId baseState = js ''a''"
    "length (workspaceNotes baseState) > 1"
    by (simp_all add: workspaceNotes_def example_defs)
  have db: "database (deleteNote (js ''a'') baseState) = [noteB]"
    and W: "workspaceNotes (deleteNote (js ''a'') baseState) = [noteB]"
    and stack: "freshlyDeletedNotes (deleteNote (js ''a'') baseState) = [noteA]"
    by (simp_all add: deleteNote_def workspaceNotes_def example_defs)
  from deleteNote_active_fallback [OF h] obtain s f where
    "currentNoteEffect (deleteNote (js ''a'') baseState) = Inr s"
    "currentNoteId s = note_id f"
    "f = (if hd (database (deleteNote (js ''a'') baseState))
               \<in> set (workspaceNotes (deleteNote (js ''a'') baseState))
          then hd (workspaceNotes (deleteNote (js ''a'') baseState))
          else hd (renderedWorkspaceNotes (deleteNote (js ''a'') baseState)))"
    by blast
  then have "currentNoteEffect (deleteNote (js ''a'') baseState) = Inr s \<and> currentNoteId s = js ''b''"
    unfolding db W by (simp add: noteB_def)
  with h db stack show ?thesis
    by blast
qed


subsection \<open>C5: undo after delete\<close>

text \<open>
  C5: undo performed immediately after \<open>delete(id)\<close> re-inserts the note that was
  removed, identical in id, content, updatedAt and workspace, and undo with an empty
  Deletion Stack leaves the store and the stack unchanged.

  Undo is the key \<open>z\<close> with Control or Meta, handled while the palette is open; the
  branch reads no memoised value, so \<open>m\<close> below is any. Below,
  \<open>d\<close> is the note that \<open>deleteNote\<close> removes, and \<open>s1\<close> is the state that \<open>deleteNote\<close>
  leaves, or that state after the render and effect that follow. After the undo the
  stack is the one before the delete, \<open>d\<close> itself is in the store, and the store holds
  the notes that the delete left and \<open>d\<close>; with unique ids these are the notes before the
  delete. With an empty stack the key changes nothing in the state, the palette open or
  closed.
\<close>

theorem undo_restores_deleted_note:
  "(isCmdKMenuOpen st \<and> find (\<lambda>n. note_id n = nid) (database st) = Some d
      \<and> key e = ''z'' \<and> (ctrlKey e \<or> metaKey e)
      \<and> (s1 = deleteNote nid st \<or> currentNoteEffect (deleteNote nid st) = Inr s1)
    \<longrightarrow> (\<exists>s2. handleKeyDown ev m e s1 = Inr s2
            \<and> freshlyDeletedNotes s2 = freshlyDeletedNotes st
            \<and> d \<in> set (database s2)
            \<and> mset (database s2) = mset (filter (\<lambda>n. note_id n \<noteq> nid) (database st)) + {#d#}
            \<and> (distinct (map note_id (database st))
                 \<longrightarrow> mset (database s2) = mset (database st))))
 \<and> (freshlyDeletedNotes st = [] \<and> key e = ''z'' \<and> (ctrlKey e \<or> metaKey e)
    \<longrightarrow> handleKeyDown ev m e st = Inr st)"
proof (intro conjI impI)
  assume a: "isCmdKMenuOpen st \<and> find (\<lambda>n. note_id n = nid) (database st) = Some d
      \<and> key e = ''z'' \<and> (ctrlKey e \<or> metaKey e)
      \<and> (s1 = deleteNote nid st \<or> currentNoteEffect (deleteNote nid st) = Inr s1)"
  then have found: "find (\<lambda>n. note_id n = nid) (database st) = Some d"
    by simp
  let ?s0 = "deleteNote nid st"
  from a have "s1 = ?s0 \<or> currentNoteEffect ?s0 = Inr s1"
    by simp
  then have frame: "freshlyDeletedNotes s1 = freshlyDeletedNotes ?s0"
      "isCmdKMenuOpen s1 = isCmdKMenuOpen ?s0"
      "mset (database s1) = mset (database ?s0)"
    using effect_frame [of ?s0 s1] by (auto simp: mset_sortNotes)
  have stack: "freshlyDeletedNotes s1 = freshlyDeletedNotes st @ [d]"
    and "isCmdKMenuOpen s1"
    and db: "mset (database s1) = mset (filter (\<lambda>n. note_id n \<noteq> nid) (database st))"
    using frame a deleteNote_found [OF found] by simp_all
  let ?s2 = "s1\<lparr>freshlyDeletedNotes := freshlyDeletedNotes st,
                 database := sortNotes (database s1 @ [d]),
                 databaseKey := Suc (databaseKey s1)\<rparr>"
  have step: "handleKeyDown ev m e s1 = Inr ?s2"
    using undo_step [OF \<open>isCmdKMenuOpen s1\<close> stack] a by simp
  have m: "mset (database ?s2) = mset (filter (\<lambda>n. note_id n \<noteq> nid) (database st)) + {#d#}"
    using db by (simp add: mset_sortNotes)
  have "d \<in> set (database ?s2)"
    by (simp add: set_sortNotes)
  moreover have "distinct (map note_id (database st)) \<longrightarrow> mset (database ?s2) = mset (database st)"
    using m mset_delete_restore [OF _ found] by simp
  ultimately show "\<exists>s2. handleKeyDown ev m e s1 = Inr s2
            \<and> freshlyDeletedNotes s2 = freshlyDeletedNotes st
            \<and> d \<in> set (database s2)
            \<and> mset (database s2) = mset (filter (\<lambda>n. note_id n \<noteq> nid) (database st)) + {#d#}
            \<and> (distinct (map note_id (database st))
                 \<longrightarrow> mset (database s2) = mset (database st))"
    using step m by (intro exI [of _ ?s2]) simp
next
  assume "freshlyDeletedNotes st = [] \<and> key e = ''z'' \<and> (ctrlKey e \<or> metaKey e)"
  then show "handleKeyDown ev m e st = Inr st"
    by (simp add: undo_empty_stack)
qed

theorem undo_restores_deleted_note_witness:
  "isCmdKMenuOpen baseState
   \<and> find (\<lambda>n. note_id n = js ''b'') (database baseState) = Some noteB
   \<and> key (withCtrl ''z'') = ''z'' \<and> ctrlKey (withCtrl ''z'')
   \<and> distinct (map note_id (database baseState))
   \<and> freshlyDeletedNotes baseState = []
   \<and> freshlyDeletedNotes (deleteNote (js ''b'') baseState) = [noteB]
   \<and> database (deleteNote (js ''b'') baseState) = [noteA]
   \<and> (\<exists>s2. handleKeyDown exampleEnv sortedMemos (withCtrl ''z'') (deleteNote (js ''b'') baseState) = Inr s2
          \<and> freshlyDeletedNotes s2 = []
          \<and> noteB \<in> set (database s2)
          \<and> mset (database s2) = mset (database baseState))
   \<and> handleKeyDown exampleEnv sortedMemos (withCtrl ''z'') baseState = Inr baseState"
proof -
  have h: "isCmdKMenuOpen baseState"
    "find (\<lambda>n. note_id n = js ''b'') (database baseState) = Some noteB"
    "key (withCtrl ''z'') = ''z''" "ctrlKey (withCtrl ''z'')"
    "distinct (map note_id (database baseState))"
    "freshlyDeletedNotes baseState = []"
    by (simp_all add: example_defs)
  have del: "freshlyDeletedNotes (deleteNote (js ''b'') baseState) = [noteB]"
    "database (deleteNote (js ''b'') baseState) = [noteA]"
    by (simp_all add: deleteNote_def example_defs)
  note inst = undo_restores_deleted_note
    [where st = baseState and nid = "js ''b''" and d = noteB and e = "withCtrl ''z''"
       and ?s1.0 = "deleteNote (js ''b'') baseState" and ev = exampleEnv and m = sortedMemos]
  from inst h have "\<exists>s2. handleKeyDown exampleEnv sortedMemos (withCtrl ''z'') (deleteNote (js ''b'') baseState) = Inr s2
          \<and> freshlyDeletedNotes s2 = []
          \<and> noteB \<in> set (database s2)
          \<and> mset (database s2) = mset (database baseState)"
    by auto
  moreover from inst h have "handleKeyDown exampleEnv sortedMemos (withCtrl ''z'') baseState = Inr baseState"
    by blast
  ultimately show ?thesis
    using h del by blast
qed


subsection \<open>C6: renaming a workspace\<close>

text \<open>
  C6: for every store state and every non-empty query \<open>q\<close> (the query trimmed and cut to
  twenty characters), the rename-workspace effect re-tags to \<open>q\<close> exactly the notes whose
  workspace is the currently active filter tag, and switches the active filter to \<open>q\<close>.

  The rename suggestion is in the list, whatever the two memoised values \<open>wn\<close> and \<open>aw\<close>
  that the list is built from, and running it keeps the palette open, sets
  the filter to \<open>q\<close> and leaves a store of the same length in which each note either
  carried the filter tag and now carries \<open>q\<close>, or is unchanged. With no active filter no
  note is re-tagged.
\<close>

theorem rename_retags_filter_notes:
  assumes "trimmedCmdKQuery st \<noteq> []"
  shows "renameWorkspaceSuggestion (trimmedCmdKQuery st) \<in> set (cmdKSuggestions ev wn aw st)
       \<and> (\<exists>st'. runCmdKSuggestion ev (Some (renameWorkspaceSuggestion (trimmedCmdKQuery st))) st
                  = Inr (False, st')
            \<and> currentWorkspace st' = Some (trimmedCmdKQuery st)
            \<and> length (database st') = length (database st)
            \<and> (\<forall>i < length (database st).
                  database st' ! i =
                    (if \<exists>w. currentWorkspace st = Some w \<and> workspace (database st ! i) = Some w
                     then (database st ! i)\<lparr>workspace := Some (trimmedCmdKQuery st)\<rparr>
                     else database st ! i)))"
proof -
  let ?q = "trimmedCmdKQuery st"
  let ?st' = "st\<lparr>currentWorkspace := Some ?q,
                 selectedCmdKSuggestionIndex := Num 0,
                 database := map (\<lambda>n. if \<not> strictEq (workspace n) (currentWorkspace st)
                                       then n else n\<lparr>workspace := Some ?q\<rparr>) (database st),
                 databaseKey := Suc (databaseKey st),
                 cmdKSearchQuery := []\<rparr>"
  have offered: "renameWorkspaceSuggestion ?q \<in> set (cmdKSuggestions ev wn aw st)"
    using assms by (simp add: cmdKSuggestions_def rename_in_actions)
  have run: "runCmdKSuggestion ev (Some (renameWorkspaceSuggestion ?q)) st = Inr (False, ?st')"
    by (simp add: renameWorkspaceSuggestion_def)
  have each: "\<forall>i < length (database st).
                  database ?st' ! i =
                    (if \<exists>w. currentWorkspace st = Some w \<and> workspace (database st ! i) = Some w
                     then (database st ! i)\<lparr>workspace := Some ?q\<rparr>
                     else database st ! i)"
    by (auto simp: strictEq_iff)
  from offered run each show ?thesis
    by (intro conjI exI [of _ ?st']) simp_all
qed

theorem rename_retags_filter_notes_witness:
  "trimmedCmdKQuery renameState = js ''p'' \<and> js ''p'' \<noteq> []
   \<and> currentWorkspace renameState = Some (js ''w'')
   \<and> database renameState = [noteA, noteB]
   \<and> renameWorkspaceSuggestion (js ''p'') \<in> set (cmdKSuggestions exampleEnv [noteA] [js ''w''] renameState)
   \<and> (\<exists>st'. runCmdKSuggestion exampleEnv (Some (renameWorkspaceSuggestion (js ''p''))) renameState
               = Inr (False, st')
          \<and> currentWorkspace st' = Some (js ''p'')
          \<and> length (database st') = 2
          \<and> database st' ! 0 = noteA\<lparr>workspace := Some (js ''p'')\<rparr>
          \<and> database st' ! 1 = noteB)"
proof -
  have q: "trimmedCmdKQuery renameState = js ''p''"
    by (simp add: trimmedCmdKQuery_def trim_def isWhiteSpace_def example_defs)
  have ne: "js ''p'' \<noteq> []"
    by (simp add: js_def)
  have h: "trimmedCmdKQuery renameState \<noteq> []"
    using q ne by simp
  have st: "currentWorkspace renameState = Some (js ''w'')"
    "database renameState = [noteA, noteB]"
    by (simp_all add: renameState_def baseState_def)
  have tags: "workspace noteA = Some (js ''w'')" "workspace noteB = None"
    by (simp_all add: noteA_def noteB_def)
  from rename_retags_filter_notes [OF h, of exampleEnv "[noteA]" "[js ''w'']"] obtain st' where
    offered: "renameWorkspaceSuggestion (trimmedCmdKQuery renameState)
                \<in> set (cmdKSuggestions exampleEnv [noteA] [js ''w''] renameState)"
    and run: "runCmdKSuggestion exampleEnv
                (Some (renameWorkspaceSuggestion (trimmedCmdKQuery renameState))) renameState
              = Inr (False, st')"
      "currentWorkspace st' = Some (trimmedCmdKQuery renameState)"
      "length (database st') = length (database renameState)"
    and each: "\<forall>i < length (database renameState).
                 database st' ! i =
                   (if \<exists>w. currentWorkspace renameState = Some w
                           \<and> workspace (database renameState ! i) = Some w
                    then (database renameState ! i)\<lparr>workspace := Some (trimmedCmdKQuery renameState)\<rparr>
                    else database renameState ! i)"
    by blast
  from each have "database st' ! 0 = noteA\<lparr>workspace := Some (js ''p'')\<rparr>"
    using tags by (simp add: q st)
  moreover from each have "database st' ! 1 = noteB"
    using tags by (simp add: q st)
  moreover have "length (database st') = 2"
    using run(3) by (simp add: st)
  ultimately show ?thesis
    using q ne st offered run(1,2) by auto
qed



subsection \<open>C7: workspace cycling\<close>

text \<open>
  The transition is ArrowRight, or \<open>i\<close> with Control or Meta, while the palette is open.
  It steps through \<open>navigableWorkspaces\<close>, which is \<open>null\<close> in front of the memoised list
  \<open>availableWorkspaces\<close>. When that list is the one its callback gives on the store, every
  workspace in it is carried by a note: then, from any position, \<open>k\<close> presses with their
  renders move the filter \<open>k\<close> positions on, modulo the length, and from \<open>null\<close> as many
  presses as \<open>navigableWorkspaces\<close> has entries lead back to \<open>null\<close>.
\<close>

lemma workspace_cycle_on_computed_list:
  assumes "isCmdKMenuOpen st" and "database st \<noteq> []" and "currentWorkspace st = None"
    and "memoKey m = databaseKey st" and "memoFilter m = None"
    and "memoAvailableWorkspaces m = computeAvailableWorkspaces (database st)"
    and "key e = ''ArrowRight'' \<or> ((ctrlKey e \<or> metaKey e) \<and> key e = ''i'')"
  shows "\<exists>m' st'. repeatKeyDownRendered ev e k (m, st) = Inr (m', st')
            \<and> currentWorkspace st'
                = navigableWorkspaces (memoAvailableWorkspaces m)
                    ! (k mod length (navigableWorkspaces (memoAvailableWorkspaces m)))"
    and "\<exists>m' st'. repeatKeyDownRendered ev e
                     (length (navigableWorkspaces (memoAvailableWorkspaces m))) (m, st)
                   = Inr (m', st')
            \<and> currentWorkspace st' = None"
proof -
  let ?nav = "navigableWorkspaces (memoAvailableWorkspaces m)"
  have pos: "0 < length ?nav" and start: "currentWorkspace st = ?nav ! 0"
    using assms(3) by (simp_all add: navigableWorkspaces_def)
  have filter: "memoFilter m = currentWorkspace st"
    using assms(3,5) by simp
  have dist: "distinct (memoAvailableWorkspaces m)"
    unfolding assms(6) by (rule distinct_computeAvailableWorkspaces)
  have carried: "\<forall>w \<in> set (memoAvailableWorkspaces m). \<exists>n \<in> set (database st). workspace n = Some w"
    unfolding assms(6) using computeAvailableWorkspaces_has_note by blast
  note steps = repeatKeyDownRendered_right
    [OF assms(7) assms(1,2,4) filter dist carried pos start, of ev]
  from steps [of k] show "\<exists>m' st'. repeatKeyDownRendered ev e k (m, st) = Inr (m', st')
            \<and> currentWorkspace st' = ?nav ! (k mod length ?nav)"
    by auto
  from steps [of "length ?nav"] show "\<exists>m' st'. repeatKeyDownRendered ev e (length ?nav) (m, st)
                   = Inr (m', st') \<and> currentWorkspace st' = None"
    by (auto simp: navigableWorkspaces_def)
qed

text \<open>
  C7 reads: for every store state, starting from the filter ``all'' (\<open>null\<close>) and applying the
  next-workspace transition \<open>length navigableWorkspaces\<close> times returns the active filter
  to ``all''.

  Unlink (and move, and \<open>openNote\<close>) writes into a note and stores the array it was
  given, so \<open>availableWorkspaces\<close>, memoised on the array, is not computed again; rename,
  delete and undo store a new array. In the example there is no filter, \<open>noteA\<close> is the
  only note with a workspace, \<open>w\<close>, and unlink is selected. Enter runs unlink: every state
  cell keeps its value, only the elements of \<open>database\<close> differ, so no render follows and
  the handlers keep the list \<open>[w]\<close>, though no note carries \<open>w\<close> any more and the callback
  would now give the empty list. \<open>navigableWorkspaces\<close> has two entries. The first
  ArrowRight sets the filter to \<open>w\<close>; the render that follows finds no note in the
  filter and its effect throws. The filter does not return to \<open>null\<close>.
\<close>

theorem workspace_cycle_throws_on_kept_list:
  "render exampleEnv None unlinkState = Inr (sortedMemos, unlinkState)
   \<and> isCmdKMenuOpen unlinkState \<and> currentWorkspace unlinkState = None
   \<and> jsIndex (memoCmdKSuggestions sortedMemos) (selectedCmdKSuggestionIndex unlinkState)
        = Some (unlinkSuggestion (js ''w''))
   \<and> handleKeyDown exampleEnv sortedMemos (pressed ''Enter'') unlinkState = Inr staleState
   \<and> staleState\<lparr>database := database unlinkState\<rparr> = unlinkState
   \<and> database staleState = [noteB, noteA\<lparr>workspace := None\<rparr>]
   \<and> computeAvailableWorkspaces (database staleState) = []
   \<and> navigableWorkspaces (memoAvailableWorkspaces sortedMemos) = [None, Some (js ''w'')]
   \<and> handleKeyDown exampleEnv sortedMemos (pressed ''ArrowRight'') staleState
        = Inr emptyFilterState
   \<and> currentWorkspace emptyFilterState = Some (js ''w'')
   \<and> workspaceNotes emptyFilterState = []
   \<and> render exampleEnv (Some sortedMemos) emptyFilterState = Inl TypeError
   \<and> repeatKeyDownRendered exampleEnv (pressed ''ArrowRight'')
        (length (navigableWorkspaces (memoAvailableWorkspaces sortedMemos)))
        (sortedMemos, staleState) = Inl TypeError"
proof -
  have st: "isCmdKMenuOpen unlinkState" "currentWorkspace unlinkState = None"
    "selectedCmdKSuggestionIndex unlinkState = Num 2"
    "staleState\<lparr>database := database unlinkState\<rparr> = unlinkState"
    "database staleState = [noteB, noteA\<lparr>workspace := None\<rparr>]"
    "isCmdKMenuOpen staleState" "currentWorkspace staleState = None"
    "currentWorkspace emptyFilterState = Some (js ''w'')"
    by (simp_all add: unlinkState_def staleState_def emptyFilterState_def sortedState_def
        baseState_def)
  have list: "memoCmdKSuggestions sortedMemos
        = [NoteSuggestion noteB, NoteSuggestion noteA, unlinkSuggestion (js ''w'')]"
    and nav: "navigableWorkspaces (memoAvailableWorkspaces sortedMemos) = [None, Some (js ''w'')]"
    by (simp_all add: sortedMemos_def navigableWorkspaces_def)
  have selected: "jsIndex (memoCmdKSuggestions sortedMemos) (selectedCmdKSuggestionIndex unlinkState)
        = Some (unlinkSuggestion (js ''w''))"
    by (simp add: list st(3))
  have "runCmdKSuggestion exampleEnv (Some (unlinkSuggestion (js ''w''))) unlinkState
          = Inr (False, staleState)"
    by (simp add: unlinkSuggestion_def currentNoteOf_def sortNotes_def unlinkState_def
        staleState_def sortedState_def baseState_def noteA_def noteB_def js_def)
  then have enter: "handleKeyDown exampleEnv sortedMemos (pressed ''Enter'') unlinkState
      = Inr staleState"
    using st(1) selected by (simp add: handleKeyDown_Enter pressed_def)
  have none: "computeAvailableWorkspaces (database staleState) = []"
    by (simp add: st(5) computeAvailableWorkspaces_def sortNotes_def noteA_def noteB_def)
  have "cycleWorkspace sortedMemos (pressed ''ArrowRight'') staleState = emptyFilterState"
    using st(7)
    by (simp add: cycleWorkspace_def nav key_defs emptyFilterState_def Let_def
        signed_modulo_int_def)
  then have right: "handleKeyDown exampleEnv sortedMemos (pressed ''ArrowRight'') staleState
      = Inr emptyFilterState"
    using st(6) by (simp add: handleKeyDown_def paletteKeyDown_def key_defs)
  have empty: "workspaceNotes emptyFilterState = []"
    by (simp add: workspaceNotes_def example_defs)
  have changed: "emptyFilterState \<noteq> staleState"
    using st(7,8) by auto
  have "repeatKeyDownRendered exampleEnv (pressed ''ArrowRight'') (Suc (Suc 0))
          (sortedMemos, staleState) = Inl TypeError"
    using right changed render_emptyFilter by simp
  then have twice: "repeatKeyDownRendered exampleEnv (pressed ''ArrowRight'')
        (length (navigableWorkspaces (memoAvailableWorkspaces sortedMemos)))
        (sortedMemos, staleState) = Inl TypeError"
    by (simp add: nav)
  from st(1,2,4,5,8) selected enter none nav right empty twice render_unlinkState
    render_emptyFilter
  show ?thesis
    by simp
qed

subsection \<open>C8: export, then import\<close>

text \<open>
  C8: exporting a note list and importing the unmodified result yields the original
  note list.

  This holds for the code given what the two libraries promise on the exported text:
  decompressing the compressed text returns it, and parsing the text that
  \<open>JSON.stringify\<close> wrote returns the note list. The text is not empty (it starts with a
  bracket), which the import requires before it replaces the store. The import stores
  the array that \<open>JSON.parse\<close> returns, a new one.
\<close>

theorem import_export_roundtrip:
  assumes "decompressFromEncodedURIComponent c
             (compressToEncodedURIComponent c (stringify c (database st)))
           = Some (stringify c (database st))"
    and "stringify c (database st) \<noteq> []"
    and "parse c (stringify c (database st)) = Some (database st)"
  shows "importNotes c (exportNotes c st) st'
           = Inr (st'\<lparr>database := database st, databaseKey := Suc (databaseKey st')\<rparr>)"
  using assms by (simp add: importNotes_def exportNotes_def)

theorem import_export_roundtrip_witness:
  "decompressFromEncodedURIComponent exampleCodec
     (compressToEncodedURIComponent exampleCodec (stringify exampleCodec (database baseState)))
     = Some (stringify exampleCodec (database baseState))
   \<and> stringify exampleCodec (database baseState) \<noteq> []
   \<and> parse exampleCodec (stringify exampleCodec (database baseState)) = Some (database baseState)
   \<and> importNotes exampleCodec (exportNotes exampleCodec baseState) emptyIdState
       = Inr (emptyIdState\<lparr>database := database baseState,
                           databaseKey := Suc (databaseKey emptyIdState)\<rparr>)"
proof -
  have h: "decompressFromEncodedURIComponent exampleCodec
     (compressToEncodedURIComponent exampleCodec (stringify exampleCodec (database baseState)))
     = Some (stringify exampleCodec (database baseState))"
    "stringify exampleCodec (database baseState) \<noteq> []"
    "parse exampleCodec (stringify exampleCodec (database baseState)) = Some (database baseState)"
    by (simp_all add: exampleCodec_def example_defs)
  from import_export_roundtrip [OF h] h show ?thesis
    by blast
qed



subsection \<open>C9: releasing the modifier after a navigation chord\<close>

text \<open>
  Enter and the release of the modifier run the same suggestion on the same state, and
  both close the palette when the suggestion says so. They differ in what else they
  store: Enter sets the index to 0 when it closes the palette, the release clears
  \<open>hasVimNavigated\<close>.
\<close>

lemma chord_release_and_enter:
  assumes "isCmdKMenuOpen st" and "hasVimNavigated st"
    and "key up = ''Meta'' \<or> key up = ''Control''" and "key down = ''Enter''"
  shows "runCmdKSuggestion ev (jsIndex (memoCmdKSuggestions m) (selectedCmdKSuggestionIndex st)) st
           = Inl err
         \<Longrightarrow> handleKeyDown ev m down st = Inl err \<and> handleKeyUp ev m up st = Inl err"
    and "runCmdKSuggestion ev (jsIndex (memoCmdKSuggestions m) (selectedCmdKSuggestionIndex st)) st
           = Inr (True, st1)
         \<Longrightarrow> handleKeyDown ev m down st
               = Inr (st1\<lparr>isCmdKMenuOpen := False, selectedCmdKSuggestionIndex := Num 0\<rparr>)
           \<and> handleKeyUp ev m up st
               = Inr (st1\<lparr>isCmdKMenuOpen := False, hasVimNavigated := False\<rparr>)"
    and "runCmdKSuggestion ev (jsIndex (memoCmdKSuggestions m) (selectedCmdKSuggestionIndex st)) st
           = Inr (False, st1)
         \<Longrightarrow> handleKeyDown ev m down st = Inr st1
           \<and> handleKeyUp ev m up st = Inr (st1\<lparr>hasVimNavigated := False\<rparr>)"
  by (simp_all add: handleKeyDown_Enter [OF assms(1,4)] handleKeyUp_release [OF assms(1,2,3)])

lemma run_chordState:
  "runCmdKSuggestion exampleEnv
     (jsIndex (memoCmdKSuggestions sortedMemos) (selectedCmdKSuggestionIndex chordState))
     chordState = Inr (True, openedState)"
  by (simp add: sortedMemos_def openNote_def openedState_def chordState_def sortedState_def
      baseState_def exampleEnv_def noteA_def noteB_def js_def)

text \<open>
  C9 reads: with \<open>vimChordPending\<close> true, releasing the modifier key produces exactly the
  state that Enter would produce (same effect, same open or closed outcome, same
  \<open>selectedIndex\<close>), and clears \<open>vimChordPending\<close>.

  When the suggestion closes the palette, the Enter branch (line 631) also calls
  \<open>setSelectedCmdKSuggestionIndex(0)\<close> and \<open>handleKeyUp\<close> (lines 717-719) does not. In the
  example the second suggestion, a note, is selected after a chord: Enter opens the
  note, closes the palette and leaves index 0; the release opens the note, closes the
  palette and leaves index 1.
\<close>

theorem chord_release_keeps_index:
  "render exampleEnv None chordState = Inr (sortedMemos, chordState)
   \<and> isCmdKMenuOpen chordState \<and> hasVimNavigated chordState
   \<and> selectedCmdKSuggestionIndex chordState = Num 1
   \<and> jsIndex (memoCmdKSuggestions sortedMemos) (selectedCmdKSuggestionIndex chordState)
       = Some (NoteSuggestion noteA)
   \<and> handleKeyDown exampleEnv sortedMemos (pressed ''Enter'') chordState
       = Inr (openedState\<lparr>isCmdKMenuOpen := False, selectedCmdKSuggestionIndex := Num 0\<rparr>)
   \<and> handleKeyUp exampleEnv sortedMemos (pressed ''Meta'') chordState
       = Inr (openedState\<lparr>isCmdKMenuOpen := False, hasVimNavigated := False\<rparr>)
   \<and> selectedCmdKSuggestionIndex
       (openedState\<lparr>isCmdKMenuOpen := False, selectedCmdKSuggestionIndex := Num 0\<rparr>) = Num 0
   \<and> selectedCmdKSuggestionIndex (openedState\<lparr>isCmdKMenuOpen := False, hasVimNavigated := False\<rparr>)
       = Num 1
   \<and> openedState\<lparr>isCmdKMenuOpen := False, hasVimNavigated := False\<rparr>
       \<noteq> openedState\<lparr>isCmdKMenuOpen := False, selectedCmdKSuggestionIndex := Num 0,
                       hasVimNavigated := False\<rparr>"
proof -
  have h: "isCmdKMenuOpen chordState" "hasVimNavigated chordState"
    "selectedCmdKSuggestionIndex chordState = Num 1"
    by (simp_all add: chordState_def sortedState_def baseState_def)
  have selected: "jsIndex (memoCmdKSuggestions sortedMemos) (selectedCmdKSuggestionIndex chordState)
       = Some (NoteSuggestion noteA)"
    by (simp add: h(3) sortedMemos_def)
  have "handleKeyDown exampleEnv sortedMemos (pressed ''Enter'') chordState
       = Inr (openedState\<lparr>isCmdKMenuOpen := False, selectedCmdKSuggestionIndex := Num 0\<rparr>)"
    using h(1,2) by (simp add: handleKeyDown_Enter pressed_def run_chordState)
  moreover have "handleKeyUp exampleEnv sortedMemos (pressed ''Meta'') chordState
       = Inr (openedState\<lparr>isCmdKMenuOpen := False, hasVimNavigated := False\<rparr>)"
    using h(1,2) by (simp add: handleKeyUp_release pressed_def run_chordState)
  moreover have sel: "selectedCmdKSuggestionIndex
      (openedState\<lparr>isCmdKMenuOpen := False, hasVimNavigated := False\<rparr>) = Num 1"
    by (simp add: openedState_def chordState_def)
  moreover have "openedState\<lparr>isCmdKMenuOpen := False, hasVimNavigated := False\<rparr>
       \<noteq> openedState\<lparr>isCmdKMenuOpen := False, selectedCmdKSuggestionIndex := Num 0,
                       hasVimNavigated := False\<rparr>"
  proof
    assume "openedState\<lparr>isCmdKMenuOpen := False, hasVimNavigated := False\<rparr>
       = openedState\<lparr>isCmdKMenuOpen := False, selectedCmdKSuggestionIndex := Num 0,
                       hasVimNavigated := False\<rparr>"
    then have "selectedCmdKSuggestionIndex
        (openedState\<lparr>isCmdKMenuOpen := False, hasVimNavigated := False\<rparr>)
      = selectedCmdKSuggestionIndex
        (openedState\<lparr>isCmdKMenuOpen := False, selectedCmdKSuggestionIndex := Num 0,
                       hasVimNavigated := False\<rparr>)"
      by (rule arg_cong)
    with sel show False
      by simp
  qed
  ultimately show ?thesis
    using h selected render_chordState by simp
qed


subsection \<open>C10: opening a note stamps it\<close>

text \<open>
  \<open>openNote\<close> writes the stamp into the note and stores the array it was given.
\<close>

lemma openNote_same_array: "databaseKey (openNote nid t st) = databaseKey st"
  by (simp add: openNote_def)

text \<open>
  C10 reads: for every note id present in the store, opening that note, with no edit,
  sets its \<open>updatedAt\<close> to the current time, so that opening alone changes the recency
  order of the notes and of the derived workspace list.

  \<open>openNote\<close> returns at once when the id is falsy: in the first example the store holds
  a note whose id is the empty string, and opening it at time 100 changes nothing. In
  the second example the workspaces are \<open>v\<close> and \<open>w\<close>, in this order of recency; the
  note of \<open>w\<close> is opened at time 100 and the App renders. The notes are then in the order
  \<open>noteA, noteE\<close>, but the list \<open>availableWorkspaces\<close> is the one of the render before,
  \<open>v\<close> then \<open>w\<close>, where its callback would now give \<open>w\<close> then \<open>v\<close>.
\<close>

theorem openNote_recency_counterexample:
  "noteA\<lparr>note_id := []\<rparr> \<in> set (database emptyIdState)
   \<and> updatedAt (noteA\<lparr>note_id := []\<rparr>) = 1
   \<and> openNote (note_id (noteA\<lparr>note_id := []\<rparr>)) 100 emptyIdState = emptyIdState
   \<and> render exampleEnv None twoWorkspacesState = Inr (twoWorkspacesMemos, twoWorkspacesState)
   \<and> noteA \<in> set (database twoWorkspacesState)
   \<and> memoAvailableWorkspaces twoWorkspacesMemos = [js ''v'', js ''w'']
   \<and> render exampleEnv (Some twoWorkspacesMemos) (openNote (note_id noteA) 100 twoWorkspacesState)
       = Inr (reopenedMemos, reopenedState)
   \<and> database reopenedState = [noteA\<lparr>updatedAt := 100\<rparr>, noteE]
   \<and> memoAvailableWorkspaces reopenedMemos = [js ''v'', js ''w'']
   \<and> computeAvailableWorkspaces (database reopenedState) = [js ''w'', js ''v'']"
proof -
  have "noteA\<lparr>note_id := []\<rparr> \<in> set (database emptyIdState)
      \<and> updatedAt (noteA\<lparr>note_id := []\<rparr>) = 1
      \<and> openNote (note_id (noteA\<lparr>note_id := []\<rparr>)) 100 emptyIdState = emptyIdState"
    by (simp add: openNote_def emptyIdState_def noteA_def)
  moreover have "noteA \<in> set (database twoWorkspacesState)"
    "database reopenedState = [noteA\<lparr>updatedAt := 100\<rparr>, noteE]"
    by (simp_all add: twoWorkspacesState_def reopenedState_def)
  moreover have "memoAvailableWorkspaces twoWorkspacesMemos = [js ''v'', js ''w'']"
    "memoAvailableWorkspaces reopenedMemos = [js ''v'', js ''w'']"
    by (simp_all add: twoWorkspacesMemos_def reopenedMemos_def)
  moreover have "computeAvailableWorkspaces [noteA\<lparr>updatedAt := 100\<rparr>, noteE] = [js ''w'', js ''v'']"
    by (simp add: computeAvailableWorkspaces_def sortNotes_def noteA_def noteE_def js_def)
  moreover have "note_id noteA = js ''a''"
    by (simp add: noteA_def)
  ultimately show ?thesis
    using render_twoWorkspaces render_reopened by simp
qed

text \<open>
  C10, amended: for every non-empty note id present in the store, opening that note
  sets the \<open>updatedAt\<close> of the first note with that id to the current time, changes no
  other note, and activates the id; when the current time is later than every
  \<open>updatedAt\<close> in the store, the note opened is then the first of the notes in recency
  order.
\<close>

theorem openNote_stamps_note:
  assumes "nid \<noteq> []" and "find (\<lambda>n. note_id n = nid) (database st) = Some n"
  shows "(\<exists>pre post. database st = pre @ n # post
            \<and> (\<forall>m \<in> set pre. note_id m \<noteq> nid)
            \<and> database (openNote nid t st) = pre @ n\<lparr>updatedAt := t\<rparr> # post)
       \<and> currentNoteId (openNote nid t st) = nid
       \<and> ((\<forall>m \<in> set (database st). updatedAt m < t)
            \<longrightarrow> hd (sortNotes (database (openNote nid t st))) = n\<lparr>updatedAt := t\<rparr>)"
proof -
  let ?p = "\<lambda>m. note_id m = nid"
  let ?n' = "n\<lparr>updatedAt := t\<rparr>"
  let ?db' = "database (openNote nid t st)"
  have db': "?db' = updateFirst ?p (\<lambda>m. m\<lparr>updatedAt := t\<rparr>) (database st)"
    and cur: "currentNoteId (openNote nid t st) = nid"
    using assms by (simp_all add: openNote_def)
  from updateFirst_split [OF assms(2), of "\<lambda>m. m\<lparr>updatedAt := t\<rparr>"] obtain pre post
    where split: "database st = pre @ n # post" "\<forall>m \<in> set pre. note_id m \<noteq> nid"
      "updateFirst ?p (\<lambda>m. m\<lparr>updatedAt := t\<rparr>) (database st) = pre @ ?n' # post"
    by blast
  have first: "\<exists>pre post. database st = pre @ n # post
            \<and> (\<forall>m \<in> set pre. note_id m \<noteq> nid) \<and> ?db' = pre @ ?n' # post"
    using split db' by auto
  have recency: "hd (sortNotes ?db') = ?n'"
    if older: "\<forall>m \<in> set (database st). updatedAt m < t"
  proof -
    have mem: "?n' \<in> set ?db'"
      using split db' by simp
    have others: "\<forall>y \<in> set ?db'. y \<noteq> ?n' \<longrightarrow> - updatedAt ?n' < - updatedAt y"
      using split db' older by auto
    show ?thesis
      unfolding sortNotes_def by (rule hd_sort_key_least [OF mem others])
  qed
  from first cur recency show ?thesis
    by blast
qed

theorem openNote_stamps_note_witness:
  "js ''a'' \<noteq> []
   \<and> find (\<lambda>n. note_id n = js ''a'') (database twoWorkspacesState) = Some noteA
   \<and> updatedAt noteA = 1 \<and> updatedAt noteE = 3
   \<and> hd (sortNotes (database twoWorkspacesState)) = noteE
   \<and> database (openNote (js ''a'') 100 twoWorkspacesState) = [noteE, noteA\<lparr>updatedAt := 100\<rparr>]
   \<and> currentNoteId (openNote (js ''a'') 100 twoWorkspacesState) = js ''a''
   \<and> hd (sortNotes (database (openNote (js ''a'') 100 twoWorkspacesState)))
       = noteA\<lparr>updatedAt := 100\<rparr>"
proof -
  have h: "js ''a'' \<noteq> []"
    "find (\<lambda>n. note_id n = js ''a'') (database twoWorkspacesState) = Some noteA"
    by (simp_all add: example_defs)
  have older: "\<forall>m \<in> set (database twoWorkspacesState). updatedAt m < 100"
    by (simp add: example_defs)
  have facts: "updatedAt noteA = 1" "updatedAt noteE = 3"
    "hd (sortNotes (database twoWorkspacesState)) = noteE"
    "database (openNote (js ''a'') 100 twoWorkspacesState) = [noteE, noteA\<lparr>updatedAt := 100\<rparr>]"
    by (simp_all add: openNote_def sortNotes_def example_defs)
  from openNote_stamps_note [OF h, of 100] older
  have "currentNoteId (openNote (js ''a'') 100 twoWorkspacesState) = js ''a''"
    and "hd (sortNotes (database (openNote (js ''a'') 100 twoWorkspacesState)))
           = noteA\<lparr>updatedAt := 100\<rparr>"
    by blast+
  with h facts show ?thesis
    by blast
qed


end
